theory Spec2Isabelle
  imports Main "HOL-Library.Word"
begin

section \<open>Raw memory, element slots and the allocator\<close>

text \<open>
  \<^verbatim>\<open>new_buffer<T, SZ, INITIAL_SIZE>\<close> of \<^verbatim>\<open>new_buffer.h\<close> is a growable array over storage
  it manages by hand. The size type \<^verbatim>\<open>SZ\<close> is modelled at 32 bits (\<^verbatim>\<open>unsigned\<close>, the
  instantiation of \<^verbatim>\<open>main.cpp\<close>): its arithmetic wraps at \<open>2 ^ 32\<close>.

  A slot of storage either holds a constructed element or is raw memory. Placement
  \<^verbatim>\<open>new\<close> makes a slot \<open>Live\<close>, a destructor call makes it \<open>Raw\<close>.
\<close>

type_synonym size_type = "32 word"

datatype 'a slot = Raw | Live 'a

text \<open>
  The element type's traits that the code dispatches on at compile time
  (\<^verbatim>\<open>std::is_trivially_move_constructible\<close>, \<^verbatim>\<open>std::is_trivially_destructible\<close>).
\<close>

record traits =
  trivially_move_constructible :: bool
  trivially_destructible :: bool

text \<open>
  Reads and writes through a pointer into a block. An access outside the block is
  undefined behaviour in the source; the model reads \<open>Raw\<close> there and drops the write.
\<close>

definition get_slot :: "'a slot list \<Rightarrow> nat \<Rightarrow> 'a slot" where
  "get_slot blk i = (if i < length blk then blk ! i else Raw)"

definition put_slot :: "'a slot list \<Rightarrow> nat \<Rightarrow> 'a slot \<Rightarrow> 'a slot list" where
  "put_slot blk i s = (if i < length blk then blk[i := s] else blk)"

text \<open>
  \<^verbatim>\<open>copy_into(destination, source, count)\<close> and \<^verbatim>\<open>move_into(destination, source, count)\<close>:
  \<^verbatim>\<open>std::memcpy\<close> for a trivially move constructible element type,
  \<^verbatim>\<open>std::uninitialized_copy\<close> (over move iterators for \<^verbatim>\<open>move_into\<close>) otherwise. Both
  overloads fill the first \<open>count\<close> destination slots from the source slots and leave the
  source slots as they are (a moved-from element stays constructed), so one definition
  serves both. The copy stops where either block ends.
\<close>

fun copy_into :: "'a slot list \<Rightarrow> 'a slot list \<Rightarrow> nat \<Rightarrow> 'a slot list" where
  "copy_into dst src 0 = dst"
| "copy_into (d # dst) (s # src) (Suc n) = s # copy_into dst src n"
| "copy_into dst src (Suc n) = dst"

definition move_into :: "'a slot list \<Rightarrow> 'a slot list \<Rightarrow> nat \<Rightarrow> 'a slot list" where
  "move_into dst src count = copy_into dst src count"

text \<open>
  \<^verbatim>\<open>move_around(destination, source, count)\<close> moves within one block, the two pointers
  given as offsets. Trivially move constructible: \<^verbatim>\<open>std::memmove\<close>. Otherwise an
  element-wise loop, low to high when \<^verbatim>\<open>destination < source\<close> and high to low
  otherwise, which move-constructs the destination slot and destroys the source slot.
\<close>

definition memmove :: "'a slot list \<Rightarrow> nat \<Rightarrow> nat \<Rightarrow> nat \<Rightarrow> 'a slot list" where
  "memmove blk dst src count =
     map (\<lambda>j. if dst \<le> j \<and> j < dst + count then get_slot blk (j - dst + src) else blk ! j)
       [0..<length blk]"

function move_forward :: "nat \<Rightarrow> nat \<Rightarrow> nat \<Rightarrow> nat \<Rightarrow> 'a slot list \<Rightarrow> 'a slot list" where
  "move_forward dst src i count blk =
     (if i < count
      then move_forward dst src (Suc i) count
             (put_slot (put_slot blk (dst + i) (get_slot blk (src + i))) (src + i) Raw)
      else blk)"
  by pat_completeness auto
termination
  by (relation "measure (\<lambda>(dst, src, i, count, blk). count - i)") auto

fun move_backward :: "nat \<Rightarrow> nat \<Rightarrow> nat \<Rightarrow> 'a slot list \<Rightarrow> 'a slot list" where
  "move_backward dst src 0 blk = blk"
| "move_backward dst src (Suc i) blk =
     move_backward dst src i
       (put_slot (put_slot blk (dst + i) (get_slot blk (src + i))) (src + i) Raw)"

definition move_around :: "traits \<Rightarrow> 'a slot list \<Rightarrow> nat \<Rightarrow> nat \<Rightarrow> nat \<Rightarrow> 'a slot list" where
  "move_around tr blk dst src count =
     (if trivially_move_constructible tr then memmove blk dst src count
      else if dst < src then move_forward dst src 0 count blk
      else move_backward dst src count blk)"

text \<open>
  \<^verbatim>\<open>destroy(begin, end)\<close>: nothing for a trivially destructible element type, otherwise
  the loop \<^verbatim>\<open>for(; begin < end; ++begin) begin->~T()\<close>. \<open>destroy_at\<close> is the single
  destructor call \<^verbatim>\<open>p->~value_type()\<close>, which is a no-op for a trivially destructible
  type as well.
\<close>

definition destroy_at :: "traits \<Rightarrow> 'a slot list \<Rightarrow> nat \<Rightarrow> 'a slot list" where
  "destroy_at tr blk i = (if trivially_destructible tr then blk else put_slot blk i Raw)"

function destroy_loop :: "'a slot list \<Rightarrow> nat \<Rightarrow> nat \<Rightarrow> 'a slot list" where
  "destroy_loop blk begin end =
     (if begin < end then destroy_loop (put_slot blk begin Raw) (Suc begin) end else blk)"
  by pat_completeness auto
termination
  by (relation "measure (\<lambda>(blk, begin, end). end - begin)") auto

definition destroy :: "traits \<Rightarrow> 'a slot list \<Rightarrow> nat \<Rightarrow> nat \<Rightarrow> 'a slot list" where
  "destroy tr blk begin end =
     (if trivially_destructible tr then blk else destroy_loop blk begin end)"

text \<open>
  The loop of \<^verbatim>\<open>resize\<close> and of the fill constructor,
  \<^verbatim>\<open>for(size_type i = size; i < count; ++i) ::new(ptr + i) value_type(value)\<close>.
\<close>

function construct_range :: "'a \<Rightarrow> 'a slot list \<Rightarrow> nat \<Rightarrow> nat \<Rightarrow> 'a slot list" where
  "construct_range v blk i count =
     (if i < count then construct_range v (put_slot blk i (Live v)) (Suc i) count else blk)"
  by pat_completeness auto
termination
  by (relation "measure (\<lambda>(v, blk, i, count). count - i)") auto

text \<open>
  The heap of \<^verbatim>\<open>util/memory_manager.h\<close> (\<^verbatim>\<open>malloc\<close>, \<^verbatim>\<open>realloc\<close>, \<^verbatim>\<open>free\<close>): the
  allocated blocks by address, and the next unused address. Allocation always succeeds
  and returns a fresh block; \<^verbatim>\<open>realloc\<close> keeps the address and the common prefix of the
  contents (whether it moves the block is not observable through the buffer). A pointer
  to no allocated block is undefined behaviour in the source: a read through it yields no
  slots and a write is dropped.
\<close>

type_synonym addr = nat

record 'b heap =
  blocks :: "addr \<Rightarrow> 'b option"
  next_addr :: addr

definition empty_heap :: "'b heap" where
  "empty_heap = \<lparr>blocks = (\<lambda>a. None), next_addr = 1\<rparr>"

definition allocate :: "'b \<Rightarrow> 'b heap \<Rightarrow> addr \<times> 'b heap" where
  "allocate blk h =
     (next_addr h, \<lparr>blocks = (blocks h)(next_addr h \<mapsto> blk), next_addr = Suc (next_addr h)\<rparr>)"

definition deallocate :: "addr \<Rightarrow> 'b heap \<Rightarrow> 'b heap" where
  "deallocate a h = h\<lparr>blocks := (blocks h)(a := None)\<rparr>"

definition heap_read :: "'a slot list heap \<Rightarrow> addr \<Rightarrow> 'a slot list" where
  "heap_read h a = (case blocks h a of Some blk \<Rightarrow> blk | None \<Rightarrow> [])"

definition heap_write :: "addr \<Rightarrow> 'b \<Rightarrow> 'b heap \<Rightarrow> 'b heap" where
  "heap_write a blk h = (if blocks h a = None then h else h\<lparr>blocks := (blocks h)(a \<mapsto> blk)\<rparr>)"

definition resize_block :: "nat \<Rightarrow> 'a slot list \<Rightarrow> 'a slot list" where
  "resize_block n blk = take n blk @ replicate (n - length blk) Raw"

definition reallocate :: "addr \<Rightarrow> nat \<Rightarrow> 'a slot list heap \<Rightarrow> addr \<times> 'a slot list heap" where
  "reallocate a n h = (a, h\<lparr>blocks := (blocks h)(a \<mapsto> resize_block n (heap_read h a))\<rparr>)"

section \<open>Growth policy\<close>

text \<open>
  \<^verbatim>\<open>next_capacity()\<close>, the same body in all four class templates:
  \<^verbatim>\<open>return cap == 0 ? 2 : (3 * cap + 1) / 2;\<close> computed in the size type.
\<close>

definition next_capacity :: "size_type \<Rightarrow> size_type" where
  "next_capacity cap = (if cap = 0 then 2 else (3 * cap + 1) div 2)"

section \<open>Buffer objects in memory\<close>

text \<open>
  Operations on two buffers (\<^verbatim>\<open>operator=\<close>, the move constructor, \<^verbatim>\<open>swap\<close>) take
  references, and \<^verbatim>\<open>operator=\<close> compares \<^verbatim>\<open>this\<close> with \<^verbatim>\<open>&other\<close>. The buffer objects
  therefore live in a store indexed by their address, next to the heap; an operation on a
  single buffer is a function on the pair of the object and the heap, applied at an
  address by \<open>at_obj\<close>.
\<close>

record ('buf, 'blk) store =
  objs :: "nat \<Rightarrow> 'buf"
  mem :: "'blk heap"

definition at_obj ::
  "nat \<Rightarrow> ('buf \<times> 'blk heap \<Rightarrow> 'buf \<times> 'blk heap) \<Rightarrow> ('buf, 'blk) store \<Rightarrow> ('buf, 'blk) store" where
  "at_obj p f s = (case f (objs s p, mem s) of (b, h) \<Rightarrow> \<lparr>objs = (objs s)(p := b), mem = h\<rparr>)"

section \<open>The variant with \<^verbatim>\<open>INITIAL_SIZE\<close> inline slots\<close>

text \<open>
  \<^verbatim>\<open>m_data\<close> points either at the object's own \<^verbatim>\<open>m_initial_buffer\<close> or at a heap block.
  The template parameter \<^verbatim>\<open>INITIAL_SIZE\<close> (\<^verbatim>\<open>initial_size\<close>) is the argument \<open>N\<close>.
\<close>

datatype ptr = Initial_buffer | Heap addr

record 'a new_buffer =
  m_data :: ptr
  m_size :: size_type
  m_capacity :: size_type
  m_initial_buffer :: "'a slot list"

type_synonym 'a inline_state = "'a new_buffer \<times> 'a slot list heap"

text \<open>The storage \<^verbatim>\<open>ptr()\<close> points at, and a write through \<^verbatim>\<open>ptr()\<close>.\<close>

definition ptr_read :: "'a new_buffer \<Rightarrow> 'a slot list heap \<Rightarrow> 'a slot list" where
  "ptr_read b h = (case m_data b of Initial_buffer \<Rightarrow> m_initial_buffer b | Heap a \<Rightarrow> heap_read h a)"

fun ptr_write :: "'a slot list \<Rightarrow> 'a inline_state \<Rightarrow> 'a inline_state" where
  "ptr_write blk (b, h) =
     (case m_data b of
        Initial_buffer \<Rightarrow> (b\<lparr>m_initial_buffer := blk\<rparr>, h)
      | Heap a \<Rightarrow> (b, heap_write a blk h))"

text \<open>\<^verbatim>\<open>constexpr new_buffer() noexcept = default\<close> with the default member initialisers.\<close>

definition new_buffer_default :: "size_type \<Rightarrow> 'a new_buffer" where
  "new_buffer_default N =
     \<lparr>m_data = Initial_buffer, m_size = 0, m_capacity = N,
      m_initial_buffer = replicate (unat N) Raw\<rparr>"

text \<open>The iteration range \<^verbatim>\<open>[begin(), end())\<close>: the first \<^verbatim>\<open>size()\<close> slots behind \<^verbatim>\<open>ptr()\<close>.\<close>

definition elems_inline :: "'a new_buffer \<Rightarrow> 'a slot list heap \<Rightarrow> 'a slot list" where
  "elems_inline b h = take (unat (m_size b)) (ptr_read b h)"

text \<open>
  \<^verbatim>\<open>reallocate(new_capacity)\<close>. First overload (element type trivially move constructible
  and trivially destructible): \<^verbatim>\<open>memory::reallocate\<close> on a heap block, a fresh block and
  \<^verbatim>\<open>move_into\<close> when the data is inline. Second overload: always a fresh block,
  \<^verbatim>\<open>move_into\<close>, \<^verbatim>\<open>destroy\<close> of the old elements, \<^verbatim>\<open>memory::deallocate\<close> unless inline.
  \<^verbatim>\<open>SASSERT\<close> is the release build's no-op throughout.
\<close>

fun reallocate_inline :: "traits \<Rightarrow> size_type \<Rightarrow> 'a inline_state \<Rightarrow> 'a inline_state" where
  "reallocate_inline tr new_capacity (b, h) =
     (if trivially_move_constructible tr \<and> trivially_destructible tr then
        (case m_data b of
           Heap a \<Rightarrow>
             (case reallocate a (unat new_capacity) h of
                (a', h') \<Rightarrow> (b\<lparr>m_data := Heap a', m_capacity := new_capacity\<rparr>, h'))
         | Initial_buffer \<Rightarrow>
             (case allocate (replicate (unat new_capacity) Raw) h of
                (a, h1) \<Rightarrow>
                  (b\<lparr>m_data := Heap a, m_capacity := new_capacity\<rparr>,
                   heap_write a
                     (move_into (heap_read h1 a) (m_initial_buffer b) (unat (m_size b))) h1)))
      else
        (case allocate (replicate (unat new_capacity) Raw) h of
           (a, h1) \<Rightarrow>
             (let h2 = heap_write a
                         (move_into (heap_read h1 a) (ptr_read b h1) (unat (m_size b))) h1 in
              case ptr_write (destroy tr (ptr_read b h2) 0 (unat (m_size b))) (b, h2) of
                (b3, h3) \<Rightarrow>
                  (b3\<lparr>m_data := Heap a, m_capacity := new_capacity\<rparr>,
                   case m_data b of Heap old \<Rightarrow> deallocate old h3 | Initial_buffer \<Rightarrow> h3))))"

text \<open>\<^verbatim>\<open>clear()\<close>: \<^verbatim>\<open>destroy(begin(), end()); m_size = 0;\<close>\<close>

fun clear_inline :: "traits \<Rightarrow> 'a inline_state \<Rightarrow> 'a inline_state" where
  "clear_inline tr (b, h) =
     (case ptr_write (destroy tr (ptr_read b h) 0 (unat (m_size b))) (b, h) of
        (b1, h1) \<Rightarrow> (b1\<lparr>m_size := 0\<rparr>, h1))"

text \<open>\<^verbatim>\<open>reserve(new_capacity)\<close>: \<^verbatim>\<open>if(capacity() < new_capacity) reallocate(new_capacity);\<close>\<close>

fun reserve_inline :: "traits \<Rightarrow> size_type \<Rightarrow> 'a inline_state \<Rightarrow> 'a inline_state" where
  "reserve_inline tr new_capacity (b, h) =
     (if m_capacity b < new_capacity then reallocate_inline tr new_capacity (b, h) else (b, h))"

text \<open>
  \<^verbatim>\<open>shrink_to_fit()\<close>: with at most \<^verbatim>\<open>initial_size\<close> elements on the heap, move them into
  the inline slots, free the block and point \<^verbatim>\<open>m_data\<close> at the inline slots (no other
  field is written); with more elements and spare capacity, \<^verbatim>\<open>reallocate(m_size)\<close>.
\<close>

fun shrink_to_fit_inline :: "traits \<Rightarrow> size_type \<Rightarrow> 'a inline_state \<Rightarrow> 'a inline_state" where
  "shrink_to_fit_inline tr N (b, h) =
     (if m_size b \<le> N then
        (case m_data b of
           Heap a \<Rightarrow>
             (b\<lparr>m_initial_buffer := move_into (m_initial_buffer b) (heap_read h a) (unat (m_size b)),
                m_data := Initial_buffer\<rparr>,
              deallocate a h)
         | Initial_buffer \<Rightarrow> (b, h))
      else if m_size b < m_capacity b then reallocate_inline tr (m_size b) (b, h)
      else (b, h))"

text \<open>
  \<^verbatim>\<open>push_back(value)\<close>: grow by \<^verbatim>\<open>reallocate(next_capacity())\<close> when
  \<^verbatim>\<open>size >= capacity()\<close>, construct at \<^verbatim>\<open>ptr() + size\<close>, \<^verbatim>\<open>++m_size\<close>.
\<close>

fun push_back_inline :: "traits \<Rightarrow> 'a \<Rightarrow> 'a inline_state \<Rightarrow> 'a inline_state" where
  "push_back_inline tr v (b, h) =
     (let size = m_size b in
      case (if size \<ge> m_capacity b
            then reallocate_inline tr (next_capacity (m_capacity b)) (b, h) else (b, h)) of
        (b1, h1) \<Rightarrow>
          (case ptr_write (put_slot (ptr_read b1 h1) (unat size) (Live v)) (b1, h1) of
             (b2, h2) \<Rightarrow> (b2\<lparr>m_size := m_size b2 + 1\<rparr>, h2)))"

text \<open>\<^verbatim>\<open>pop_back()\<close>: \<^verbatim>\<open>end()->~value_type(); --m_size;\<close> where \<^verbatim>\<open>end()\<close> is \<^verbatim>\<open>ptr() + size()\<close>.\<close>

fun pop_back_inline :: "traits \<Rightarrow> 'a inline_state \<Rightarrow> 'a inline_state" where
  "pop_back_inline tr (b, h) =
     (case ptr_write (destroy_at tr (ptr_read b h) (unat (m_size b))) (b, h) of
        (b1, h1) \<Rightarrow> (b1\<lparr>m_size := m_size b1 - 1\<rparr>, h1))"

text \<open>
  The operations on two buffers, on the store. \<open>this\<close>, \<open>other\<close>, \<open>lhs\<close> and \<open>rhs\<close> are
  the addresses of the objects; the constructors build the object at \<open>this\<close>. The move
  constructor and \<^verbatim>\<open>swap\<close> are written for two distinct objects.
\<close>

type_synonym 'a inline_store = "('a new_buffer, 'a slot list) store"

text \<open>
  \<^verbatim>\<open>operator=(new_buffer const& other)\<close>: guarded by \<^verbatim>\<open>this != &other\<close>, then
  \<^verbatim>\<open>clear(); reserve(other.m_size); m_size = other.m_size;
  copy_into(m_data, other.m_data, m_size);\<close>, each statement reading the store the
  previous one left.
\<close>

definition copy_assign_inline :: "traits \<Rightarrow> nat \<Rightarrow> nat \<Rightarrow> 'a inline_store \<Rightarrow> 'a inline_store" where
  "copy_assign_inline tr this other s =
     (if this \<noteq> other then
        (let s1 = at_obj this (clear_inline tr) s;
             s2 = at_obj this (reserve_inline tr (m_size (objs s1 other))) s1;
             s3 = at_obj this (\<lambda>(b, h). (b\<lparr>m_size := m_size (objs s2 other)\<rparr>, h)) s2
         in at_obj this
              (\<lambda>(b, h). ptr_write
                 (copy_into (ptr_read b h) (ptr_read (objs s3 other) h) (unat (m_size b))) (b, h))
              s3)
      else s)"

text \<open>
  The move constructor. With \<^verbatim>\<open>other\<close> on the heap it takes the three fields and then
  executes \<^verbatim>\<open>other.m_data = &other.m_initial_buffer; other.m_size = 0;
  other.m_size = initial_size;\<close>. With \<^verbatim>\<open>other\<close> inline it moves the elements into
  its own inline slots, destroys the originals and sets \<^verbatim>\<open>other.m_size = 0\<close>.
\<close>

definition move_construct_inline ::
  "traits \<Rightarrow> size_type \<Rightarrow> nat \<Rightarrow> nat \<Rightarrow> 'a inline_store \<Rightarrow> 'a inline_store" where
  "move_construct_inline tr N this other s =
     (let oth = objs s other in
      if m_data oth \<noteq> Initial_buffer then
        s\<lparr>objs := (objs s)
             (this := \<lparr>m_data = m_data oth, m_size = m_size oth, m_capacity = m_capacity oth,
                       m_initial_buffer = replicate (unat N) Raw\<rparr>,
              other := oth\<lparr>m_data := Initial_buffer, m_size := 0, m_size := N\<rparr>)\<rparr>
      else
        (let s1 = s\<lparr>objs := (objs s)
                    (this := \<lparr>m_data = Initial_buffer, m_size = m_size oth, m_capacity = N,
                              m_initial_buffer =
                                move_into (replicate (unat N) Raw) (ptr_read oth (mem s))
                                  (unat (m_size oth))\<rparr>)\<rparr>;
             s2 = at_obj other
                    (\<lambda>(b, h). ptr_write (destroy tr (ptr_read b h) 0 (unat (m_size b))) (b, h)) s1
         in at_obj other (\<lambda>(b, h). (b\<lparr>m_size := 0\<rparr>, h)) s2))"

text \<open>
  \<^verbatim>\<open>operator=(new_buffer&& other)\<close>, guarded by \<^verbatim>\<open>this != &other\<close>. Both on the heap:
  the three fields are swapped. \<^verbatim>\<open>other\<close> on the heap and \<^verbatim>\<open>this\<close> inline: as in the
  move constructor, after destroying the own elements. \<^verbatim>\<open>other\<close> inline:
  \<^verbatim>\<open>destroy(begin(), end()); m_size = other.m_size;
  move_into(m_data, other.m_data, m_size);\<close> and nothing is written to \<^verbatim>\<open>other\<close>.
\<close>

definition move_assign_inline ::
  "traits \<Rightarrow> size_type \<Rightarrow> nat \<Rightarrow> nat \<Rightarrow> 'a inline_store \<Rightarrow> 'a inline_store" where
  "move_assign_inline tr N this other s =
     (if this \<noteq> other then
        (let ths = objs s this; oth = objs s other in
         if m_data oth \<noteq> Initial_buffer then
           (if m_data ths \<noteq> Initial_buffer then
              s\<lparr>objs := (objs s)
                   (this := ths\<lparr>m_data := m_data oth, m_size := m_size oth,
                                m_capacity := m_capacity oth\<rparr>,
                    other := oth\<lparr>m_data := m_data ths, m_size := m_size ths,
                                 m_capacity := m_capacity ths\<rparr>)\<rparr>
            else
              (let s1 = at_obj this
                          (\<lambda>(b, h). ptr_write (destroy tr (ptr_read b h) 0 (unat (m_size b))) (b, h)) s
               in s1\<lparr>objs := (objs s1)
                       (this := (objs s1 this)\<lparr>m_data := m_data oth, m_size := m_size oth,
                                               m_capacity := m_capacity oth\<rparr>,
                        other := oth\<lparr>m_data := Initial_buffer, m_size := 0, m_size := N\<rparr>)\<rparr>))
         else
           (let s1 = at_obj this
                       (\<lambda>(b, h). ptr_write (destroy tr (ptr_read b h) 0 (unat (m_size b))) (b, h)) s;
                s2 = at_obj this (\<lambda>(b, h). (b\<lparr>m_size := m_size (objs s1 other)\<rparr>, h)) s1
            in at_obj this
                 (\<lambda>(b, h). ptr_write
                    (move_into (ptr_read b h) (ptr_read (objs s2 other) h) (unat (m_size b))) (b, h))
                 s2))
      else s)"

text \<open>
  \<^verbatim>\<open>friend void swap(new_buffer& lhs, new_buffer& rhs)\<close>. Both on the heap: the three
  fields are swapped. One side inline: the inline elements are moved into the other
  object's inline slots and destroyed, the heap pointer changes hands, the side that
  received the pointer executes \<^verbatim>\<open>x.m_capacity = x.m_capacity\<close> and the other
  \<^verbatim>\<open>y.m_capacity = initial_size\<close>; \<^verbatim>\<open>m_size\<close> is not written. Both inline:
  \<^verbatim>\<open>rhs.m_capacity = rhs.next_capacity()\<close>, a heap block of that capacity takes the
  elements of \<^verbatim>\<open>lhs\<close>, the inline slots of \<^verbatim>\<open>lhs\<close> take those of \<^verbatim>\<open>rhs\<close>,
  \<^verbatim>\<open>rhs.m_data\<close> becomes the block, and the sizes are swapped.
\<close>

definition swap_inline ::
  "traits \<Rightarrow> size_type \<Rightarrow> nat \<Rightarrow> nat \<Rightarrow> 'a inline_store \<Rightarrow> 'a inline_store" where
  "swap_inline tr N lhs rhs s =
     (let l = objs s lhs; r = objs s rhs; h = mem s in
      if m_data l \<noteq> Initial_buffer then
        (if m_data r \<noteq> Initial_buffer then
           s\<lparr>objs := (objs s)
                (lhs := l\<lparr>m_data := m_data r, m_size := m_size r, m_capacity := m_capacity r\<rparr>,
                 rhs := r\<lparr>m_data := m_data l, m_size := m_size l, m_capacity := m_capacity l\<rparr>)\<rparr>
         else
           (let l1 = l\<lparr>m_initial_buffer :=
                        move_into (m_initial_buffer l) (ptr_read r h) (unat (m_size r))\<rparr> in
            case ptr_write (destroy tr (ptr_read r h) 0 (unat (m_size r))) (r, h) of
              (r1, h1) \<Rightarrow>
                \<lparr>objs = (objs s)
                   (lhs := l1\<lparr>m_data := Initial_buffer, m_capacity := N\<rparr>,
                    rhs := r1\<lparr>m_data := m_data l1, m_capacity := m_capacity r1\<rparr>),
                 mem = h1\<rparr>))
      else
        (if m_data r \<noteq> Initial_buffer then
           (let r1 = r\<lparr>m_initial_buffer :=
                        move_into (m_initial_buffer r) (ptr_read l h) (unat (m_size l))\<rparr> in
            case ptr_write (destroy tr (ptr_read l h) 0 (unat (m_size l))) (l, h) of
              (l1, h1) \<Rightarrow>
                \<lparr>objs = (objs s)
                   (lhs := l1\<lparr>m_data := m_data r1, m_capacity := m_capacity l1\<rparr>,
                    rhs := r1\<lparr>m_data := Initial_buffer, m_capacity := N\<rparr>),
                 mem = h1\<rparr>)
         else
           (let r1 = r\<lparr>m_capacity := next_capacity (m_capacity r)\<rparr> in
            case allocate (replicate (unat (m_capacity r1)) Raw) h of
              (buffer, h1) \<Rightarrow>
                (let h2 = heap_write buffer
                            (move_into (heap_read h1 buffer) (ptr_read l h1) (unat (m_size l))) h1 in
                 case ptr_write (destroy tr (ptr_read l h2) 0 (unat (m_size l))) (l, h2) of
                   (l1, h3) \<Rightarrow>
                     (case ptr_write
                             (move_into (ptr_read l1 h3) (ptr_read r1 h3) (unat (m_size r1)))
                             (l1, h3) of
                        (l2, h4) \<Rightarrow>
                          (case ptr_write (destroy tr (ptr_read r1 h4) 0 (unat (m_size r1)))
                                  (r1, h4) of
                             (r2, h5) \<Rightarrow>
                               \<lparr>objs = (objs s)
                                  (lhs := l2\<lparr>m_size := m_size r2\<rparr>,
                                   rhs := r2\<lparr>m_data := Heap buffer, m_size := m_size l2\<rparr>),
                                mem = h5\<rparr>))))))"

section \<open>The variant with pointer, size and capacity as fields (\<^verbatim>\<open>new_buffer<T, SZ, -1>\<close>)\<close>

text \<open>\<^verbatim>\<open>m_data\<close> is \<^verbatim>\<open>nullptr\<close> (\<open>None\<close>) or the address of a heap block.\<close>

record new_buffer_split =
  m_data_split :: "addr option"
  m_size_split :: size_type
  m_capacity_split :: size_type

type_synonym 'a split_state = "new_buffer_split \<times> 'a slot list heap"

definition new_buffer_split_default :: new_buffer_split where
  "new_buffer_split_default = \<lparr>m_data_split = None, m_size_split = 0, m_capacity_split = 0\<rparr>"

definition ptr_read_split :: "new_buffer_split \<Rightarrow> 'a slot list heap \<Rightarrow> 'a slot list" where
  "ptr_read_split b h = (case m_data_split b of None \<Rightarrow> [] | Some a \<Rightarrow> heap_read h a)"

fun ptr_write_split :: "'a slot list \<Rightarrow> 'a split_state \<Rightarrow> 'a split_state" where
  "ptr_write_split blk (b, h) =
     (case m_data_split b of None \<Rightarrow> (b, h) | Some a \<Rightarrow> (b, heap_write a blk h))"

definition elems_split :: "new_buffer_split \<Rightarrow> 'a slot list heap \<Rightarrow> 'a slot list" where
  "elems_split b h = take (unat (m_size_split b)) (ptr_read_split b h)"

text \<open>
  \<^verbatim>\<open>reallocate(new_capacity)\<close>: for a trivial element type \<^verbatim>\<open>memory::allocate\<close> when
  \<^verbatim>\<open>m_data == nullptr\<close> and \<^verbatim>\<open>memory::reallocate\<close> otherwise; for any other element
  type a fresh block, \<^verbatim>\<open>move_into\<close>, \<^verbatim>\<open>destroy\<close>, and \<^verbatim>\<open>memory::deallocate\<close> of a
  non-null \<^verbatim>\<open>m_data\<close>.
\<close>

fun reallocate_split :: "traits \<Rightarrow> size_type \<Rightarrow> 'a split_state \<Rightarrow> 'a split_state" where
  "reallocate_split tr new_capacity (b, h) =
     (if trivially_move_constructible tr \<and> trivially_destructible tr then
        (case m_data_split b of
           None \<Rightarrow>
             (case allocate (replicate (unat new_capacity) Raw) h of
                (a, h1) \<Rightarrow> (b\<lparr>m_data_split := Some a, m_capacity_split := new_capacity\<rparr>, h1))
         | Some a \<Rightarrow>
             (case reallocate a (unat new_capacity) h of
                (a', h1) \<Rightarrow> (b\<lparr>m_data_split := Some a', m_capacity_split := new_capacity\<rparr>, h1)))
      else
        (case allocate (replicate (unat new_capacity) Raw) h of
           (new_data, h1) \<Rightarrow>
             (let h2 = heap_write new_data
                         (move_into (heap_read h1 new_data) (ptr_read_split b h1)
                            (unat (m_size_split b))) h1 in
              case ptr_write_split
                     (destroy tr (ptr_read_split b h2) 0 (unat (m_size_split b))) (b, h2) of
                (b3, h3) \<Rightarrow>
                  (b3\<lparr>m_data_split := Some new_data, m_capacity_split := new_capacity\<rparr>,
                   case m_data_split b of Some old \<Rightarrow> deallocate old h3 | None \<Rightarrow> h3))))"

text \<open>\<^verbatim>\<open>clear()\<close>: \<^verbatim>\<open>destroy(ptr(), ptr() + size()); m_size = 0;\<close>\<close>

fun clear_split :: "traits \<Rightarrow> 'a split_state \<Rightarrow> 'a split_state" where
  "clear_split tr (b, h) =
     (case ptr_write_split (destroy tr (ptr_read_split b h) 0 (unat (m_size_split b))) (b, h) of
        (b1, h1) \<Rightarrow> (b1\<lparr>m_size_split := 0\<rparr>, h1))"

text \<open>\<^verbatim>\<open>_reserve(new_capacity)\<close>: \<^verbatim>\<open>if(new_capacity > capacity()) reallocate(new_capacity);\<close>\<close>

fun reserve_private_split :: "traits \<Rightarrow> size_type \<Rightarrow> 'a split_state \<Rightarrow> 'a split_state" where
  "reserve_private_split tr new_capacity (b, h) =
     (if new_capacity > m_capacity_split b then reallocate_split tr new_capacity (b, h)
      else (b, h))"

text \<open>
  \<^verbatim>\<open>resize(count)\<close> and \<^verbatim>\<open>resize(count, value)\<close>; \<open>v\<close> is the value the new slots are
  constructed with (\<^verbatim>\<open>value_type()\<close> for the first overload):
  \<^verbatim>\<open>_reserve(count); destroy(ptr() + count, ptr() + size());
  for(size_type i = size(); i < count; ++i) ::new(ptr() + i) value_type(v);
  m_size = count;\<close>
\<close>

fun resize_split :: "traits \<Rightarrow> 'a \<Rightarrow> size_type \<Rightarrow> 'a split_state \<Rightarrow> 'a split_state" where
  "resize_split tr v count (b, h) =
     (case reserve_private_split tr count (b, h) of
        (b1, h1) \<Rightarrow>
          (case ptr_write_split
                  (destroy tr (ptr_read_split b1 h1) (unat count) (unat (m_size_split b1)))
                  (b1, h1) of
             (b2, h2) \<Rightarrow>
               (case ptr_write_split
                       (construct_range v (ptr_read_split b2 h2) (unat (m_size_split b2))
                          (unat count))
                       (b2, h2) of
                  (b3, h3) \<Rightarrow> (b3\<lparr>m_size_split := count\<rparr>, h3))))"

text \<open>
  \<^verbatim>\<open>reserve(count)\<close>: \<^verbatim>\<open>if(count > size()) resize(count);\<close> (the source's comment:
  "vector::reserve actually does an enlarge-only resize as per the old API").
  \<open>dflt\<close> is \<^verbatim>\<open>value_type()\<close>.
\<close>

fun reserve_split :: "traits \<Rightarrow> 'a \<Rightarrow> size_type \<Rightarrow> 'a split_state \<Rightarrow> 'a split_state" where
  "reserve_split tr dflt count (b, h) =
     (if count > m_size_split b then resize_split tr dflt count (b, h) else (b, h))"

text \<open>\<^verbatim>\<open>push_back(value)\<close> and \<^verbatim>\<open>pop_back()\<close>, as in the inline variant.\<close>

fun push_back_split :: "traits \<Rightarrow> 'a \<Rightarrow> 'a split_state \<Rightarrow> 'a split_state" where
  "push_back_split tr v (b, h) =
     (case (if m_size_split b \<ge> m_capacity_split b
            then reallocate_split tr (next_capacity (m_capacity_split b)) (b, h) else (b, h)) of
        (b1, h1) \<Rightarrow>
          (case ptr_write_split
                  (put_slot (ptr_read_split b1 h1) (unat (m_size_split b1)) (Live v)) (b1, h1) of
             (b2, h2) \<Rightarrow> (b2\<lparr>m_size_split := m_size_split b2 + 1\<rparr>, h2)))"

fun pop_back_split :: "traits \<Rightarrow> 'a split_state \<Rightarrow> 'a split_state" where
  "pop_back_split tr (b, h) =
     (case ptr_write_split (destroy_at tr (ptr_read_split b h) (unat (m_size_split b))) (b, h) of
        (b1, h1) \<Rightarrow> (b1\<lparr>m_size_split := m_size_split b1 - 1\<rparr>, h1))"

text \<open>
  \<^verbatim>\<open>erase(const_iterator position)\<close>; an iterator is its offset from \<^verbatim>\<open>ptr()\<close>:
  \<^verbatim>\<open>index = static_cast<size_type>(position - ptr()); ptr()[index].~value_type();
  move_around(ptr() + index, ptr() + index + 1, size() - index - 1); --m_size;
  return ptr() + index;\<close>
\<close>

fun erase_split :: "traits \<Rightarrow> nat \<Rightarrow> 'a split_state \<Rightarrow> nat \<times> 'a split_state" where
  "erase_split tr position (b, h) =
     (let index = (word_of_nat position :: size_type) in
      case ptr_write_split (destroy_at tr (ptr_read_split b h) (unat index)) (b, h) of
        (b1, h1) \<Rightarrow>
          (case ptr_write_split
                  (move_around tr (ptr_read_split b1 h1) (unat index) (unat index + 1)
                     (unat (m_size_split b1 - index - 1)))
                  (b1, h1) of
             (b2, h2) \<Rightarrow> (unat index, (b2\<lparr>m_size_split := m_size_split b2 - 1\<rparr>, h2))))"

text \<open>
  \<^verbatim>\<open>std::find(begin(), end(), element)\<close> over the iteration range: the offset of the first
  slot holding an element equal to \<open>element\<close>, or the length of the range (\<^verbatim>\<open>end()\<close>).
\<close>

fun std_find :: "'a slot list \<Rightarrow> 'a \<Rightarrow> nat" where
  "std_find [] element = 0"
| "std_find (x # xs) element = (if x = Live element then 0 else Suc (std_find xs element))"

text \<open>
  \<^verbatim>\<open>erase(value_type const& element)\<close>:
  \<^verbatim>\<open>it = std::find(begin(), end(), element); if(it != end()) return erase(it);
  return end();\<close>
\<close>

fun erase_value_split :: "traits \<Rightarrow> 'a \<Rightarrow> 'a split_state \<Rightarrow> nat \<times> 'a split_state" where
  "erase_value_split tr element (b, h) =
     (let it = std_find (elems_split b h) element in
      if it \<noteq> unat (m_size_split b) then erase_split tr it (b, h)
      else (unat (m_size_split b), (b, h)))"

type_synonym 'a split_store = "(new_buffer_split, 'a slot list) store"

text \<open>
  \<^verbatim>\<open>operator=(new_buffer const& other)\<close>: guarded by \<^verbatim>\<open>this != &other\<close>;
  \<^verbatim>\<open>clear(); size = other.m_size; if(size > 0) { reallocate(size);
  copy_into(ptr(), other.ptr(), size); m_size = size; }\<close>
\<close>

definition copy_assign_split :: "traits \<Rightarrow> nat \<Rightarrow> nat \<Rightarrow> 'a split_store \<Rightarrow> 'a split_store" where
  "copy_assign_split tr this other s =
     (if this \<noteq> other then
        (let s1 = at_obj this (clear_split tr) s;
             size = m_size_split (objs s1 other)
         in if size > 0 then
              (let s2 = at_obj this (reallocate_split tr size) s1;
                   s3 = at_obj this
                          (\<lambda>(b, h). ptr_write_split
                             (copy_into (ptr_read_split b h) (ptr_read_split (objs s2 other) h)
                                (unat size)) (b, h)) s2
               in at_obj this (\<lambda>(b, h). (b\<lparr>m_size_split := size\<rparr>, h)) s3)
            else s1)
      else s)"

text \<open>
  The move constructor takes the three fields and nulls those of \<^verbatim>\<open>other\<close>;
  \<^verbatim>\<open>operator=(new_buffer&&)\<close> and \<^verbatim>\<open>swap\<close> exchange the three fields.
\<close>

definition move_construct_split :: "nat \<Rightarrow> nat \<Rightarrow> 'a split_store \<Rightarrow> 'a split_store" where
  "move_construct_split this other s =
     (let oth = objs s other in
      s\<lparr>objs := (objs s)
           (this := \<lparr>m_data_split = m_data_split oth, m_size_split = m_size_split oth,
                     m_capacity_split = m_capacity_split oth\<rparr>,
            other := oth\<lparr>m_data_split := None, m_size_split := 0, m_capacity_split := 0\<rparr>)\<rparr>)"

definition swap_split :: "nat \<Rightarrow> nat \<Rightarrow> 'a split_store \<Rightarrow> 'a split_store" where
  "swap_split lhs rhs s =
     (let l = objs s lhs; r = objs s rhs in
      s\<lparr>objs := (objs s)
           (lhs := l\<lparr>m_data_split := m_data_split r, m_size_split := m_size_split r,
                     m_capacity_split := m_capacity_split r\<rparr>,
            rhs := r\<lparr>m_data_split := m_data_split l, m_size_split := m_size_split l,
                     m_capacity_split := m_capacity_split l\<rparr>)\<rparr>)"

definition move_assign_split :: "nat \<Rightarrow> nat \<Rightarrow> 'a split_store \<Rightarrow> 'a split_store" where
  "move_assign_split this other s = swap_split this other s"

section \<open>The variant with the header in the allocation (\<^verbatim>\<open>new_buffer<T, SZ, 0>\<close>)\<close>

text \<open>
  The object is the single pointer \<^verbatim>\<open>char* m_data\<close>; one allocation holds
  \<^verbatim>\<open>header_t\<close> (\<^verbatim>\<open>m_size\<close>, \<^verbatim>\<open>m_capacity\<close>) followed by the element slots. The allocator
  leaves the header fields unspecified; the code writes both before it reads them.
\<close>

record 'a header_block =
  m_size_hdr :: size_type
  m_capacity_hdr :: size_type
  slots :: "'a slot list"

record new_buffer_header =
  m_data_hdr :: "addr option"

type_synonym 'a header_state = "new_buffer_header \<times> 'a header_block heap"

definition new_buffer_header_default :: new_buffer_header where
  "new_buffer_header_default = \<lparr>m_data_hdr = None\<rparr>"

text \<open>\<^verbatim>\<open>header()\<close>; a pointer to no allocation is undefined behaviour, read as an empty block.\<close>

definition header :: "'a header_block heap \<Rightarrow> addr \<Rightarrow> 'a header_block" where
  "header h a =
     (case blocks h a of
        Some blk \<Rightarrow> blk
      | None \<Rightarrow> \<lparr>m_size_hdr = 0, m_capacity_hdr = 0, slots = []\<rparr>)"

text \<open>\<^verbatim>\<open>size()\<close> and \<^verbatim>\<open>capacity()\<close>: \<^verbatim>\<open>m_data ? header()->m_size : 0\<close>.\<close>

definition size_header :: "new_buffer_header \<Rightarrow> 'a header_block heap \<Rightarrow> size_type" where
  "size_header b h = (case m_data_hdr b of Some a \<Rightarrow> m_size_hdr (header h a) | None \<Rightarrow> 0)"

definition capacity_header :: "new_buffer_header \<Rightarrow> 'a header_block heap \<Rightarrow> size_type" where
  "capacity_header b h = (case m_data_hdr b of Some a \<Rightarrow> m_capacity_hdr (header h a) | None \<Rightarrow> 0)"

definition ptr_read_header :: "new_buffer_header \<Rightarrow> 'a header_block heap \<Rightarrow> 'a slot list" where
  "ptr_read_header b h = (case m_data_hdr b of None \<Rightarrow> [] | Some a \<Rightarrow> slots (header h a))"

fun ptr_write_header :: "'a slot list \<Rightarrow> 'a header_state \<Rightarrow> 'a header_state" where
  "ptr_write_header blk (b, h) =
     (case m_data_hdr b of
        None \<Rightarrow> (b, h)
      | Some a \<Rightarrow> (b, heap_write a ((header h a)\<lparr>slots := blk\<rparr>) h))"

text \<open>A write to \<^verbatim>\<open>header()->m_size\<close>.\<close>

fun set_size_header :: "size_type \<Rightarrow> 'a header_state \<Rightarrow> 'a header_state" where
  "set_size_header n (b, h) =
     (case m_data_hdr b of
        None \<Rightarrow> (b, h)
      | Some a \<Rightarrow> (b, heap_write a ((header h a)\<lparr>m_size_hdr := n\<rparr>) h))"

definition elems_header :: "new_buffer_header \<Rightarrow> 'a header_block heap \<Rightarrow> 'a slot list" where
  "elems_header b h = take (unat (size_header b h)) (ptr_read_header b h)"

text \<open>
  \<^verbatim>\<open>reallocate(new_capacity)\<close>. Trivial element type: \<^verbatim>\<open>memory::allocate\<close> and a header
  with size 0 when \<^verbatim>\<open>m_data == nullptr\<close>, else \<^verbatim>\<open>memory::reallocate\<close> of the whole
  allocation and the old size written back. Otherwise: a fresh allocation, and with a
  non-null \<^verbatim>\<open>m_data\<close> the size copied, \<^verbatim>\<open>move_into\<close>, \<^verbatim>\<open>destroy\<close>, \<^verbatim>\<open>memory::deallocate\<close>.
\<close>

fun reallocate_header :: "traits \<Rightarrow> size_type \<Rightarrow> 'a header_state \<Rightarrow> 'a header_state" where
  "reallocate_header tr new_capacity (b, h) =
     (if trivially_move_constructible tr \<and> trivially_destructible tr then
        (case m_data_hdr b of
           None \<Rightarrow>
             (case allocate \<lparr>m_size_hdr = 0, m_capacity_hdr = new_capacity,
                             slots = replicate (unat new_capacity) Raw\<rparr> h of
                (a, h1) \<Rightarrow> (b\<lparr>m_data_hdr := Some a\<rparr>, h1))
         | Some a \<Rightarrow>
             (let old_header = header h a; size = m_size_hdr old_header in
              (b\<lparr>m_data_hdr := Some a\<rparr>,
               h\<lparr>blocks := (blocks h)
                    (a \<mapsto> \<lparr>m_size_hdr = size, m_capacity_hdr = new_capacity,
                           slots = resize_block (unat new_capacity) (slots old_header)\<rparr>)\<rparr>)))
      else
        (case allocate \<lparr>m_size_hdr = 0, m_capacity_hdr = new_capacity,
                        slots = replicate (unat new_capacity) Raw\<rparr> h of
           (a, h1) \<Rightarrow>
             (case m_data_hdr b of
                None \<Rightarrow> (b\<lparr>m_data_hdr := Some a\<rparr>, heap_write a ((header h1 a)\<lparr>m_size_hdr := 0\<rparr>) h1)
              | Some old \<Rightarrow>
                  (let size = m_size_hdr (header h1 old);
                       h2 = heap_write a
                              ((header h1 a)
                                 \<lparr>m_size_hdr := size,
                                  slots := move_into (slots (header h1 a)) (ptr_read_header b h1)
                                             (unat size)\<rparr>) h1 in
                   case ptr_write_header (destroy tr (ptr_read_header b h2) 0 (unat size)) (b, h2) of
                     (b3, h3) \<Rightarrow> (b3\<lparr>m_data_hdr := Some a\<rparr>, deallocate old h3)))))"

text \<open>
  \<^verbatim>\<open>clear()\<close>: \<^verbatim>\<open>if(m_data != nullptr) { destroy(ptr(), ptr() + size());
  header()->m_size = 0; }\<close>
\<close>

fun clear_header :: "traits \<Rightarrow> 'a header_state \<Rightarrow> 'a header_state" where
  "clear_header tr (b, h) =
     (if m_data_hdr b \<noteq> None then
        set_size_header 0
          (ptr_write_header (destroy tr (ptr_read_header b h) 0 (unat (size_header b h))) (b, h))
      else (b, h))"

fun reserve_private_header :: "traits \<Rightarrow> size_type \<Rightarrow> 'a header_state \<Rightarrow> 'a header_state" where
  "reserve_private_header tr new_capacity (b, h) =
     (if new_capacity > capacity_header b h then reallocate_header tr new_capacity (b, h)
      else (b, h))"

text \<open>
  \<^verbatim>\<open>resize(count)\<close> and \<^verbatim>\<open>resize(count, value)\<close>: \<^verbatim>\<open>clear()\<close> when \<^verbatim>\<open>count == 0\<close>,
  else \<^verbatim>\<open>_reserve(count); size = size(); destroy(ptr() + count, ptr() + size);\<close>, the
  constructing loop and \<^verbatim>\<open>header()->m_size = count\<close>.
\<close>

fun resize_header :: "traits \<Rightarrow> 'a \<Rightarrow> size_type \<Rightarrow> 'a header_state \<Rightarrow> 'a header_state" where
  "resize_header tr v count (b, h) =
     (if count = 0 then clear_header tr (b, h)
      else
        (case reserve_private_header tr count (b, h) of
           (b1, h1) \<Rightarrow>
             (let size = size_header b1 h1 in
              case ptr_write_header
                     (destroy tr (ptr_read_header b1 h1) (unat count) (unat size)) (b1, h1) of
                (b2, h2) \<Rightarrow>
                  set_size_header count
                    (ptr_write_header
                       (construct_range v (ptr_read_header b2 h2) (unat size) (unat count))
                       (b2, h2)))))"

text \<open>\<^verbatim>\<open>reserve(count)\<close>: \<^verbatim>\<open>if(count > size()) resize(count);\<close>\<close>

fun reserve_header :: "traits \<Rightarrow> 'a \<Rightarrow> size_type \<Rightarrow> 'a header_state \<Rightarrow> 'a header_state" where
  "reserve_header tr dflt count (b, h) =
     (if count > size_header b h then resize_header tr dflt count (b, h) else (b, h))"

text \<open>
  \<^verbatim>\<open>push_back(value)\<close>: \<^verbatim>\<open>size = size(); if(size >= capacity())
  reallocate(next_capacity()); ::new(ptr() + size) value_type(value);
  ++header()->m_size;\<close> and \<^verbatim>\<open>pop_back()\<close>: \<^verbatim>\<open>end()->~value_type();
  --header()->m_size;\<close>
\<close>

fun push_back_header :: "traits \<Rightarrow> 'a \<Rightarrow> 'a header_state \<Rightarrow> 'a header_state" where
  "push_back_header tr v (b, h) =
     (let size = size_header b h in
      case (if size \<ge> capacity_header b h
            then reallocate_header tr (next_capacity (capacity_header b h)) (b, h) else (b, h)) of
        (b1, h1) \<Rightarrow>
          (case ptr_write_header (put_slot (ptr_read_header b1 h1) (unat size) (Live v)) (b1, h1) of
             (b2, h2) \<Rightarrow> set_size_header (size_header b2 h2 + 1) (b2, h2)))"

fun pop_back_header :: "traits \<Rightarrow> 'a header_state \<Rightarrow> 'a header_state" where
  "pop_back_header tr (b, h) =
     (case ptr_write_header
             (destroy_at tr (ptr_read_header b h) (unat (size_header b h))) (b, h) of
        (b1, h1) \<Rightarrow> set_size_header (size_header b1 h1 - 1) (b1, h1))"

text \<open>\<^verbatim>\<open>erase(position)\<close> and \<^verbatim>\<open>erase(element)\<close>, as in the variant with three fields.\<close>

fun erase_header :: "traits \<Rightarrow> nat \<Rightarrow> 'a header_state \<Rightarrow> nat \<times> 'a header_state" where
  "erase_header tr position (b, h) =
     (let index = (word_of_nat position :: size_type) in
      case ptr_write_header (destroy_at tr (ptr_read_header b h) (unat index)) (b, h) of
        (b1, h1) \<Rightarrow>
          (case ptr_write_header
                  (move_around tr (ptr_read_header b1 h1) (unat index) (unat index + 1)
                     (unat (size_header b1 h1 - index - 1)))
                  (b1, h1) of
             (b2, h2) \<Rightarrow> (unat index, set_size_header (size_header b2 h2 - 1) (b2, h2))))"

fun erase_value_header :: "traits \<Rightarrow> 'a \<Rightarrow> 'a header_state \<Rightarrow> nat \<times> 'a header_state" where
  "erase_value_header tr element (b, h) =
     (let it = std_find (elems_header b h) element in
      if it \<noteq> unat (size_header b h) then erase_header tr it (b, h)
      else (unat (size_header b h), (b, h)))"

type_synonym 'a header_store = "(new_buffer_header, 'a header_block) store"

text \<open>
  \<^verbatim>\<open>operator=(new_buffer const& other)\<close>: guarded by \<^verbatim>\<open>this != &other\<close>;
  \<^verbatim>\<open>clear(); size = other.size(); if(size > 0) { reallocate(size);
  copy_into(ptr(), other.ptr(), size); header()->m_size = size; }\<close>
\<close>

definition copy_assign_header :: "traits \<Rightarrow> nat \<Rightarrow> nat \<Rightarrow> 'a header_store \<Rightarrow> 'a header_store" where
  "copy_assign_header tr this other s =
     (if this \<noteq> other then
        (let s1 = at_obj this (clear_header tr) s;
             size = size_header (objs s1 other) (mem s1)
         in if size > 0 then
              (let s2 = at_obj this (reallocate_header tr size) s1;
                   s3 = at_obj this
                          (\<lambda>(b, h). ptr_write_header
                             (copy_into (ptr_read_header b h) (ptr_read_header (objs s2 other) h)
                                (unat size)) (b, h)) s2
               in at_obj this (set_size_header size) s3)
            else s1)
      else s)"

text \<open>
  The move constructor takes the pointer and nulls \<^verbatim>\<open>other.m_data\<close>;
  \<^verbatim>\<open>operator=(new_buffer&&)\<close> and \<^verbatim>\<open>swap\<close> exchange the two pointers.
\<close>

definition move_construct_header :: "nat \<Rightarrow> nat \<Rightarrow> 'a header_store \<Rightarrow> 'a header_store" where
  "move_construct_header this other s =
     (let oth = objs s other in
      s\<lparr>objs := (objs s)
           (this := \<lparr>m_data_hdr = m_data_hdr oth\<rparr>, other := oth\<lparr>m_data_hdr := None\<rparr>)\<rparr>)"

definition swap_header :: "nat \<Rightarrow> nat \<Rightarrow> 'a header_store \<Rightarrow> 'a header_store" where
  "swap_header lhs rhs s =
     (let l = objs s lhs; r = objs s rhs in
      s\<lparr>objs := (objs s)
           (lhs := l\<lparr>m_data_hdr := m_data_hdr r\<rparr>, rhs := r\<lparr>m_data_hdr := m_data_hdr l\<rparr>)\<rparr>)"

definition move_assign_header :: "nat \<Rightarrow> nat \<Rightarrow> 'a header_store \<Rightarrow> 'a header_store" where
  "move_assign_header this other s = swap_header this other s"

section \<open>The variant whose capacity is the allocator's usable size (\<^verbatim>\<open>new_buffer<T, SZ, -2>\<close>)\<close>

text \<open>
  The fields are those of the variant with three fields. \<^verbatim>\<open>reallocate\<close> asks the
  allocator for \<^verbatim>\<open>new_capacity * sizeof(value_type)\<close> bytes and sets the capacity to
  \<^verbatim>\<open>actual_size / sizeof(value_type)\<close>. \<open>usable\<close> is \<^verbatim>\<open>malloc_usable_size\<close> as a function of
  the requested byte size and \<open>sz\<close> is \<^verbatim>\<open>sizeof(value_type)\<close>; the block holds the slots
  that fit the usable size.
\<close>

fun reallocate_actual ::
  "traits \<Rightarrow> (nat \<Rightarrow> nat) \<Rightarrow> nat \<Rightarrow> size_type \<Rightarrow> 'a split_state \<Rightarrow> 'a split_state" where
  "reallocate_actual tr usable sz new_capacity (b, h) =
     (let actual_size = usable (unat new_capacity * sz) in
      if trivially_move_constructible tr \<and> trivially_destructible tr then
        (case m_data_split b of
           None \<Rightarrow>
             (case allocate (replicate (actual_size div sz) Raw) h of
                (a, h1) \<Rightarrow>
                  (b\<lparr>m_data_split := Some a, m_capacity_split := word_of_nat (actual_size div sz)\<rparr>,
                   h1))
         | Some a \<Rightarrow>
             (case reallocate a (actual_size div sz) h of
                (a', h1) \<Rightarrow>
                  (b\<lparr>m_data_split := Some a', m_capacity_split := word_of_nat (actual_size div sz)\<rparr>,
                   h1)))
      else
        (case allocate (replicate (actual_size div sz) Raw) h of
           (new_data, h1) \<Rightarrow>
             (let h2 = heap_write new_data
                         (move_into (heap_read h1 new_data) (ptr_read_split b h1)
                            (unat (m_size_split b))) h1 in
              case ptr_write_split
                     (destroy tr (ptr_read_split b h2) 0 (unat (m_size_split b))) (b, h2) of
                (b3, h3) \<Rightarrow>
                  (b3\<lparr>m_data_split := Some new_data,
                      m_capacity_split := word_of_nat (actual_size div sz)\<rparr>,
                   case m_data_split b of Some old \<Rightarrow> deallocate old h3 | None \<Rightarrow> h3))))"

fun push_back_actual ::
  "traits \<Rightarrow> (nat \<Rightarrow> nat) \<Rightarrow> nat \<Rightarrow> 'a \<Rightarrow> 'a split_state \<Rightarrow> 'a split_state" where
  "push_back_actual tr usable sz v (b, h) =
     (case (if m_size_split b \<ge> m_capacity_split b
            then reallocate_actual tr usable sz (next_capacity (m_capacity_split b)) (b, h)
            else (b, h)) of
        (b1, h1) \<Rightarrow>
          (case ptr_write_split
                  (put_slot (ptr_read_split b1 h1) (unat (m_size_split b1)) (Live v)) (b1, h1) of
             (b2, h2) \<Rightarrow> (b2\<lparr>m_size_split := m_size_split b2 + 1\<rparr>, h2)))"

section \<open>Comparison operators\<close>

text \<open>
  The operators work on the iteration ranges of the two buffers, here the lists of their
  elements. \<^verbatim>\<open>operator==\<close>: different sizes are unequal, otherwise the loop returns false
  at the first pair with \<^verbatim>\<open>*li != *ri\<close>. Behind the size check the loop never runs past
  the end of \<^verbatim>\<open>rhs\<close>.
\<close>

fun equal_loop :: "'a list \<Rightarrow> 'a list \<Rightarrow> bool" where
  "equal_loop [] rs = True"
| "equal_loop (l # ls) [] = True"
| "equal_loop (l # ls) (r # rs) = (if l \<noteq> r then False else equal_loop ls rs)"

definition operator_eq :: "'a list \<Rightarrow> 'a list \<Rightarrow> bool" where
  "operator_eq lhs rhs = (if length lhs \<noteq> length rhs then False else equal_loop lhs rhs)"

text \<open>
  \<^verbatim>\<open>std::lexicographical_compare(first1, last1, first2, last2, comp)\<close> of the C++ standard
  library:
  \<^verbatim>\<open>for(; first1 != last1 && first2 != last2; ++first1, ++first2) {
    if(comp(*first1, *first2)) return true;
    if(comp(*first2, *first1)) return false; }
  return first1 == last1 && first2 != last2;\<close>
\<close>

fun lexicographical_compare :: "('a \<Rightarrow> 'a \<Rightarrow> bool) \<Rightarrow> 'a list \<Rightarrow> 'a list \<Rightarrow> bool" where
  "lexicographical_compare cmp [] [] = False"
| "lexicographical_compare cmp [] (y # ys) = True"
| "lexicographical_compare cmp (x # xs) [] = False"
| "lexicographical_compare cmp (x # xs) (y # ys) =
     (if cmp x y then True
      else if cmp y x then False
      else lexicographical_compare cmp xs ys)"

text \<open>
  The four ordering operators pass the element type's operator of the same name as
  \<^verbatim>\<open>comp\<close>: \<^verbatim>\<open>operator<=\<close> passes \<^verbatim>\<open>lhs <= rhs\<close>, \<^verbatim>\<open>operator>\<close> passes \<^verbatim>\<open>lhs > rhs\<close>.
\<close>

definition operator_less :: "'a::linorder list \<Rightarrow> 'a list \<Rightarrow> bool" where
  "operator_less lhs rhs = lexicographical_compare (\<lambda>l r. l < r) lhs rhs"

definition operator_less_eq :: "'a::linorder list \<Rightarrow> 'a list \<Rightarrow> bool" where
  "operator_less_eq lhs rhs = lexicographical_compare (\<lambda>l r. l \<le> r) lhs rhs"

definition operator_greater :: "'a::linorder list \<Rightarrow> 'a list \<Rightarrow> bool" where
  "operator_greater lhs rhs = lexicographical_compare (\<lambda>l r. l > r) lhs rhs"

definition operator_greater_eq :: "'a::linorder list \<Rightarrow> 'a list \<Rightarrow> bool" where
  "operator_greater_eq lhs rhs = lexicographical_compare (\<lambda>l r. l \<ge> r) lhs rhs"

section \<open>Well-formed storage and buffers built by the operations\<close>

text \<open>
  What the operations rely on: the size is within the capacity, the slots behind
  \<^verbatim>\<open>ptr()\<close> cover it, and a heap pointer is the address of an allocated block.
\<close>

definition valid_inline :: "'a new_buffer \<Rightarrow> 'a slot list heap \<Rightarrow> bool" where
  "valid_inline b h \<longleftrightarrow>
     m_size b \<le> m_capacity b \<and> unat (m_size b) \<le> length (ptr_read b h) \<and>
     (case m_data b of
        Initial_buffer \<Rightarrow> True
      | Heap a \<Rightarrow> a < next_addr h \<and> blocks h a \<noteq> None)"

definition valid_split :: "new_buffer_split \<Rightarrow> 'a slot list heap \<Rightarrow> bool" where
  "valid_split b h \<longleftrightarrow>
     m_size_split b \<le> m_capacity_split b \<and>
     (case m_data_split b of
        None \<Rightarrow> m_capacity_split b = 0
      | Some a \<Rightarrow>
          a < next_addr h \<and>
          (case blocks h a of
             None \<Rightarrow> False
           | Some blk \<Rightarrow> length blk = unat (m_capacity_split b)))"

definition valid_header :: "new_buffer_header \<Rightarrow> 'a header_block heap \<Rightarrow> bool" where
  "valid_header b h \<longleftrightarrow>
     (case m_data_hdr b of
        None \<Rightarrow> True
      | Some a \<Rightarrow>
          a < next_addr h \<and>
          (case blocks h a of
             None \<Rightarrow> False
           | Some blk \<Rightarrow>
               m_size_hdr blk \<le> m_capacity_hdr blk \<and>
               length (slots blk) = unat (m_capacity_hdr blk)))"

text \<open>
  The two element types of \<^verbatim>\<open>main.cpp\<close>: \<^verbatim>\<open>unsigned\<close> is trivial, \<^verbatim>\<open>std::string\<close> has a
  move constructor and a destructor of its own. The operations look at the traits only,
  so the elements of the examples are written as integers for either element type.
\<close>

definition traits_unsigned :: traits where
  "traits_unsigned = \<lparr>trivially_move_constructible = True, trivially_destructible = True\<rparr>"

definition traits_string :: traits where
  "traits_string = \<lparr>trivially_move_constructible = False, trivially_destructible = False\<rparr>"

text \<open>A default-constructed buffer on an empty heap after \<^verbatim>\<open>push_back\<close> of each element of a list.\<close>

definition inline_of :: "traits \<Rightarrow> size_type \<Rightarrow> 'a list \<Rightarrow> 'a inline_state" where
  "inline_of tr N xs = fold (push_back_inline tr) xs (new_buffer_default N, empty_heap)"

definition split_of :: "traits \<Rightarrow> 'a list \<Rightarrow> 'a split_state" where
  "split_of tr xs = fold (push_back_split tr) xs (new_buffer_split_default, empty_heap)"

definition header_of :: "traits \<Rightarrow> 'a list \<Rightarrow> 'a header_state" where
  "header_of tr xs = fold (push_back_header tr) xs (new_buffer_header_default, empty_heap)"

text \<open>Two objects at the addresses 0 and 1, filled the same way.\<close>

definition two_buffers :: "traits \<Rightarrow> size_type \<Rightarrow> 'a list \<Rightarrow> 'a list \<Rightarrow> 'a inline_store" where
  "two_buffers tr N xs ys =
     at_obj 1 (fold (push_back_inline tr) ys)
       (at_obj 0 (fold (push_back_inline tr) xs)
          \<lparr>objs = (\<lambda>p. new_buffer_default N), mem = empty_heap\<rparr>)"

definition two_buffers_split :: "traits \<Rightarrow> 'a list \<Rightarrow> 'a list \<Rightarrow> 'a split_store" where
  "two_buffers_split tr xs ys =
     at_obj 1 (fold (push_back_split tr) ys)
       (at_obj 0 (fold (push_back_split tr) xs)
          \<lparr>objs = (\<lambda>p. new_buffer_split_default), mem = empty_heap\<rparr>)"

section \<open>Facts about the primitives\<close>

declare destroy_loop.simps [simp del] construct_range.simps [simp del]
  move_forward.simps [simp del]

lemma length_put_slot [simp]: "length (put_slot blk i s) = length blk"
  by (simp add: put_slot_def)

lemma length_copy_into [simp]: "length (copy_into dst src n) = length dst"
  by (induction dst src n rule: copy_into.induct) simp_all

lemma take_copy_into:
  "k \<le> n \<Longrightarrow> k \<le> length src \<Longrightarrow> k \<le> length dst \<Longrightarrow> take k (copy_into dst src n) = take k src"
proof (induction dst src n arbitrary: k rule: copy_into.induct)
  case (2 d dst s src n)
  then show ?case by (cases k) simp_all
qed simp_all

lemma length_destroy_loop [simp]: "length (destroy_loop blk b e) = length blk"
  by (induction blk b e rule: destroy_loop.induct)
     (simp add: destroy_loop.simps [of _ b e for b e])

lemma take_destroy_loop: "k \<le> b \<Longrightarrow> take k (destroy_loop blk b e) = take k blk"
proof (induction blk b e rule: destroy_loop.induct)
  case (1 blk b e)
  show ?case
  proof (cases "b < e")
    case True
    with 1 have "take k (destroy_loop (put_slot blk b Raw) (Suc b) e) = take k (put_slot blk b Raw)"
      by simp
    with True 1(2) show ?thesis
      by (simp add: destroy_loop.simps [of blk b e] put_slot_def)
  next
    case False
    then show ?thesis by (simp add: destroy_loop.simps [of blk b e])
  qed
qed

lemma destroy_loop_empty: "e \<le> b \<Longrightarrow> destroy_loop blk b e = blk"
  by (simp add: destroy_loop.simps [of blk b e])

lemma length_destroy [simp]: "length (destroy tr blk b e) = length blk"
  by (simp add: destroy_def)

lemma take_destroy: "k \<le> b \<Longrightarrow> take k (destroy tr blk b e) = take k blk"
  by (simp add: destroy_def take_destroy_loop)

lemma destroy_empty: "e \<le> b \<Longrightarrow> destroy tr blk b e = blk"
  by (simp add: destroy_def destroy_loop_empty)

lemma length_construct_range [simp]: "length (construct_range v blk i n) = length blk"
  by (induction v blk i n rule: construct_range.induct)
     (simp add: construct_range.simps [of _ _ i n for i n])

lemma take_construct_range:
  "i \<le> n \<Longrightarrow> n \<le> length blk \<Longrightarrow>
   take n (construct_range v blk i n) = take i blk @ replicate (n - i) (Live v)"
proof (induction v blk i n rule: construct_range.induct)
  case (1 v blk i n)
  show ?case
  proof (cases "i < n")
    case True
    with 1 have "take n (construct_range v (put_slot blk i (Live v)) (Suc i) n) =
        take (Suc i) (put_slot blk i (Live v)) @ replicate (n - Suc i) (Live v)"
      by simp
    moreover have "take (Suc i) (put_slot blk i (Live v)) = take i blk @ [Live v]"
      using True 1(3) by (simp add: put_slot_def take_Suc_conv_app_nth)
    moreover have "replicate (n - i) (Live v) = Live v # replicate (n - Suc i) (Live v)"
      using True by (simp add: Suc_diff_Suc flip: replicate_Suc)
    ultimately show ?thesis
      using True by (simp add: construct_range.simps [of v blk i n])
  next
    case False
    with 1(2) have "i = n" by simp
    then show ?thesis by (simp add: construct_range.simps [of v blk n n])
  qed
qed

lemma length_resize_block [simp]: "length (resize_block n blk) = n"
  by (simp add: resize_block_def)

lemma take_resize_block:
  "k \<le> n \<Longrightarrow> k \<le> length blk \<Longrightarrow> take k (resize_block n blk) = take k blk"
  by (simp add: resize_block_def min_def)

lemma unat_next_capacity:
  assumes "3 * unat current + 1 < 2 ^ 32"
  shows "unat (next_capacity current) =
           (if unat current = 0 then 2 else (3 * unat current + 1) div 2)"
proof (cases "current = 0")
  case True
  then show ?thesis by (simp add: next_capacity_def)
next
  case False
  have "unat (3 * current + 1) = 3 * unat current + 1"
    using assms by (simp add: unat_word_ariths)
  with False show ?thesis
    by (simp add: next_capacity_def unat_div unat_eq_zero)
qed

lemma push_back_inline_capacity:
  "m_capacity (fst (push_back_inline tr v (b, h))) =
     (if m_size b \<ge> m_capacity b then next_capacity (m_capacity b) else m_capacity b)"
  by (simp add: Let_def allocate_def reallocate_def split: ptr.splits prod.splits)

lemma push_back_split_capacity:
  "m_capacity_split (fst (push_back_split tr v (b, h))) =
     (if m_size_split b \<ge> m_capacity_split b then next_capacity (m_capacity_split b)
      else m_capacity_split b)"
  by (simp add: Let_def allocate_def reallocate_def split: option.splits prod.splits)

lemma push_back_actual_capacity:
  "m_capacity_split (fst (push_back_actual tr usable sz v (b, h))) =
     (if m_size_split b \<ge> m_capacity_split b
      then word_of_nat (usable (unat (next_capacity (m_capacity_split b)) * sz) div sz)
      else m_capacity_split b)"
  by (simp add: Let_def allocate_def reallocate_def split: option.splits prod.splits)

lemma push_back_header_capacity:
  assumes "valid_header b h"
  shows "case push_back_header tr v (b, h) of
           (b', h') \<Rightarrow>
             capacity_header b' h' =
               (if size_header b h \<ge> capacity_header b h
                then next_capacity (capacity_header b h) else capacity_header b h)"
  using assms
  by (auto simp: valid_header_def Let_def allocate_def capacity_header_def size_header_def
      header_def heap_write_def deallocate_def ptr_read_header_def
      split: option.splits prod.splits)

section \<open>Scenario A: promotion from inline to heap storage\<close>

text \<open>
  Claim C2, as the code has it. An empty inline-variant buffer with 4 inline slots and a
  32-bit size type, after \<^verbatim>\<open>push_back\<close> of 1, 2, 3, 4 uses inline storage with size 4 and
  capacity 4. A further \<^verbatim>\<open>push_back(5)\<close> moves it to a heap block, the contents are
  1, 2, 3, 4, 5 in order, and the capacity is \<^verbatim>\<open>next_capacity(4)\<close>, which is
  \<open>(3 * 4 + 1) div 2 = 6\<close>.
\<close>

theorem scenario_A_inline_promotion:
  "(case inline_of traits_unsigned 4 [1, 2, 3, 4 :: int] of
      (b, h) \<Rightarrow>
        m_data b = Initial_buffer \<and> m_size b = 4 \<and> m_capacity b = 4 \<and>
        elems_inline b h = [Live 1, Live 2, Live 3, Live 4]) \<and>
   (case push_back_inline traits_unsigned 5 (inline_of traits_unsigned 4 [1, 2, 3, 4 :: int]) of
      (b, h) \<Rightarrow>
        m_data b = Heap 1 \<and> blocks h 1 \<noteq> None \<and> m_size b = 5 \<and>
        m_capacity b = next_capacity 4 \<and> next_capacity 4 = 6 \<and>
        elems_inline b h = [Live 1, Live 2, Live 3, Live 4, Live 5])"
  by code_simp

text \<open>The capacity after the fifth \<^verbatim>\<open>push_back\<close> is not 7.\<close>

theorem scenario_A_capacity_7_counterexample:
  "m_capacity (fst (push_back_inline traits_unsigned 5
      (inline_of traits_unsigned 4 [1, 2, 3, 4 :: int]))) \<noteq> 7"
  by code_simp

section \<open>The growth policy\<close>

text \<open>
  The growth function within the range of the size type. When \<open>3 * current + 1\<close> does
  not exceed the range of the 32-bit size type, \<^verbatim>\<open>next_capacity(current)\<close> is 2 for
  \<open>current = 0\<close> and \<open>(3 * current + 1) div 2\<close> otherwise; \<^verbatim>\<open>next_capacity\<close> maps 0 to 2,
  2 to 3, 3 to 5 and 10 to 15. In every variant \<^verbatim>\<open>push_back\<close> on a buffer with
  \<^verbatim>\<open>size() >= capacity()\<close> grows by this function: the capacity afterwards is
  \<^verbatim>\<open>next_capacity(capacity())\<close>, and in the variant that asks the allocator for its usable
  size it is the usable size of the request for \<^verbatim>\<open>next_capacity(capacity())\<close> elements;
  with spare capacity \<^verbatim>\<open>push_back\<close> leaves the capacity alone.
\<close>

lemma growth_policy_in_range:
  assumes "3 * unat current + 1 < 2 ^ 32" and "valid_header bh hh"
  shows "unat (next_capacity current) =
           (if unat current = 0 then 2 else (3 * unat current + 1) div 2) \<and>
         next_capacity 0 = 2 \<and> next_capacity 2 = 3 \<and> next_capacity 3 = 5 \<and>
         next_capacity 10 = 15 \<and>
         m_capacity (fst (push_back_inline tr v (bi, hi))) =
           (if m_size bi \<ge> m_capacity bi then next_capacity (m_capacity bi) else m_capacity bi) \<and>
         (case push_back_header tr v (bh, hh) of
            (b', h') \<Rightarrow>
              capacity_header b' h' =
                (if size_header bh hh \<ge> capacity_header bh hh
                 then next_capacity (capacity_header bh hh) else capacity_header bh hh)) \<and>
         m_capacity_split (fst (push_back_split tr v (bs, hs))) =
           (if m_size_split bs \<ge> m_capacity_split bs then next_capacity (m_capacity_split bs)
            else m_capacity_split bs) \<and>
         m_capacity_split (fst (push_back_actual tr usable sz v (bs, hs))) =
           (if m_size_split bs \<ge> m_capacity_split bs
            then word_of_nat (usable (unat (next_capacity (m_capacity_split bs)) * sz) div sz)
            else m_capacity_split bs)"
proof -
  have "next_capacity 0 = 2 \<and> next_capacity 2 = 3 \<and> next_capacity 3 = 5 \<and> next_capacity 10 = 15"
    by (simp add: next_capacity_def)
  with unat_next_capacity [OF assms(1)] push_back_header_capacity [OF assms(2), of tr v]
  show ?thesis
    by (simp only: push_back_inline_capacity push_back_split_capacity push_back_actual_capacity)
qed

text \<open>
  The same at capacity 10 and at the header-variant buffer holding two elements, whose
  third \<^verbatim>\<open>push_back\<close> grows the capacity from 2 to 3.
\<close>

lemma growth_policy_in_range_example:
  "3 * unat (10 :: size_type) + 1 < 2 ^ 32 \<and>
   valid_header (fst (header_of traits_string [1, 2 :: int]))
     (snd (header_of traits_string [1, 2 :: int])) \<and>
   unat (next_capacity 10) = 15 \<and>
   (case push_back_header traits_string 3 (header_of traits_string [1, 2 :: int]) of
      (b', h') \<Rightarrow> capacity_header b' h' = 3)"
proof -
  have h1: "3 * unat (10 :: size_type) + 1 < 2 ^ 32" by simp
  have h2: "valid_header (fst (header_of traits_string [1, 2 :: int]))
              (snd (header_of traits_string [1, 2 :: int]))"
    by code_simp
  have c: "capacity_header (fst (header_of traits_string [1, 2 :: int]))
              (snd (header_of traits_string [1, 2 :: int])) = 2 \<and>
           size_header (fst (header_of traits_string [1, 2 :: int]))
              (snd (header_of traits_string [1, 2 :: int])) = 2"
    by code_simp
  have n: "next_capacity 2 = 3" by (simp add: next_capacity_def)
  from growth_policy_in_range [OF h1 h2, where tr = traits_string and v = "3"] c n h1 h2
  show ?thesis by simp
qed

text \<open>
  Claim C3 at capacity 1431655765. The claim gives \<open>(3 * current + 1) div 2\<close>, which is
  2147483648 there. The code computes \<open>3 * cap + 1\<close> in the 32-bit size type, where it
  wraps to 0, and \<^verbatim>\<open>next_capacity\<close> returns 0. On a full buffer of that capacity
  \<^verbatim>\<open>push_back\<close> then calls \<^verbatim>\<open>reallocate(0)\<close>, against the
  \<^verbatim>\<open>SASSERT(new_capacity >= size())\<close> of \<^verbatim>\<open>reallocate\<close>, and leaves the capacity at 0.
\<close>

theorem next_capacity_wraps_to_zero:
  "next_capacity 1431655765 = 0 \<and>
   unat (next_capacity 1431655765) \<noteq> (3 * 1431655765 + 1) div 2 \<and>
   m_capacity (fst (push_back_inline tr v
     (bi\<lparr>m_size := 1431655765, m_capacity := 1431655765\<rparr>, hi))) = 0 \<and>
   m_capacity_split (fst (push_back_split tr v
     (bs\<lparr>m_size_split := 1431655765, m_capacity_split := 1431655765\<rparr>, hs))) = 0"
proof -
  have n: "next_capacity 1431655765 = 0" by (simp add: next_capacity_def)
  have "m_capacity (fst (push_back_inline tr v
          (bi\<lparr>m_size := 1431655765, m_capacity := 1431655765\<rparr>, hi))) = 0"
    by (simp only: push_back_inline_capacity) (simp add: n)
  moreover have "m_capacity_split (fst (push_back_split tr v
          (bs\<lparr>m_size_split := 1431655765, m_capacity_split := 1431655765\<rparr>, hs))) = 0"
    by (simp only: push_back_split_capacity) (simp add: n)
  ultimately show ?thesis using n by simp
qed

section \<open>\<^verbatim>\<open>pop_back\<close> and the live range\<close>

text \<open>
  Claim C4 at buffers whose element type has a destructor of its own (the traits of
  \<^verbatim>\<open>std::string\<close>). \<^verbatim>\<open>pop_back\<close> runs the destructor at \<^verbatim>\<open>end()\<close>, the slot
  at index \<^verbatim>\<open>size()\<close>, and decrements the size: in all three variants the last element, at
  index \<^verbatim>\<open>size() - 1\<close>, is still constructed afterwards although it lies in
  \<^verbatim>\<open>[size, capacity)\<close>.
\<close>

theorem pop_back_destroys_past_the_end:
  "(case pop_back_inline traits_string (inline_of traits_string 4 [1, 2, 3 :: int]) of
      (b, h) \<Rightarrow>
        m_size b = 2 \<and> m_capacity b = 4 \<and>
        ptr_read b h = [Live 1, Live 2, Live 3, Raw]) \<and>
   (case pop_back_header traits_string (header_of traits_string [1, 2, 3, 4 :: int]) of
      (b, h) \<Rightarrow>
        size_header b h = 3 \<and> capacity_header b h = 5 \<and>
        ptr_read_header b h = [Live 1, Live 2, Live 3, Live 4, Raw]) \<and>
   (case pop_back_split traits_string (split_of traits_string [1, 2, 3, 4 :: int]) of
      (b, h) \<Rightarrow>
        m_size_split b = 3 \<and> m_capacity_split b = 5 \<and>
        ptr_read_split b h = [Live 1, Live 2, Live 3, Live 4, Raw])"
  by code_simp

section \<open>The capacity of the inline variant\<close>

text \<open>
  Claim C5 at the buffer 1, 2, 3, 4, 5 with 4 inline slots after \<^verbatim>\<open>pop_back\<close>: it is on
  the heap with capacity 6, and \<^verbatim>\<open>shrink_to_fit\<close> moves the four elements back into the
  inline slots and leaves \<^verbatim>\<open>m_capacity\<close> at 6.
\<close>

theorem shrink_to_fit_keeps_heap_capacity:
  "(case pop_back_inline traits_unsigned (inline_of traits_unsigned 4 [1, 2, 3, 4, 5 :: int]) of
      (b, h) \<Rightarrow> m_data b = Heap 1 \<and> m_size b = 4 \<and> m_capacity b = 6) \<and>
   (case shrink_to_fit_inline traits_unsigned 4
           (pop_back_inline traits_unsigned (inline_of traits_unsigned 4 [1, 2, 3, 4, 5 :: int])) of
      (b, h) \<Rightarrow>
        m_data b = Initial_buffer \<and> m_size b = 4 \<and> m_capacity b = 6 \<and>
        length (m_initial_buffer b) = 4)"
  by code_simp

section \<open>\<^verbatim>\<open>swap\<close> of the inline variant\<close>

text \<open>
  Claim C6 at a buffer of five elements on the heap and a buffer of one element in its
  inline slots (4 inline slots, element type with the traits of \<^verbatim>\<open>std::string\<close>). \<^verbatim>\<open>swap\<close> exchanges the storage and leaves both sizes:
  the first buffer then has size 5 over inline slots that hold one element, the second
  has size 1 over the block of five.
\<close>

theorem swap_heap_with_inline_keeps_sizes:
  "(let s = two_buffers traits_string 4 [1, 2, 3, 4, 5 :: int] [9 :: int];
        s' = swap_inline traits_string 4 0 1 s
    in elems_inline (objs s 0) (mem s) =
         [Live 1, Live 2, Live 3, Live 4, Live 5] \<and>
       m_data (objs s 0) = Heap 1 \<and>
       elems_inline (objs s 1) (mem s) = [Live 9] \<and> m_data (objs s 1) = Initial_buffer \<and>
       m_size (objs s' 0) = 5 \<and> m_data (objs s' 0) = Initial_buffer \<and>
       m_initial_buffer (objs s' 0) = [Live 9, Raw, Raw, Raw] \<and>
       m_size (objs s' 1) = 1 \<and> elems_inline (objs s' 1) (mem s') = [Live 1])"
  by code_simp

section \<open>The ordering operators\<close>

text \<open>
  Claim C8 at concrete buffers. For \<open>a = [1, 2, 3]\<close> and \<open>b = [1, 2, 3, 4]\<close>, \<open>a < b\<close> is
  true and \<open>a == b\<close> is false, and \<open>a > b\<close> and \<open>a >= b\<close> are true as well. For two empty buffers
  \<open>a == b\<close> is true and \<open>a <= b\<close> is false. For \<open>[1, 5]\<close> and \<open>[1, 2]\<close>, \<open>a <= b\<close> is true
  although neither \<open>a < b\<close> nor \<open>a == b\<close> is.
\<close>

theorem comparison_operators_disagree:
  "operator_less [1, 2, 3] [1, 2, 3, 4 :: int] \<and> \<not> operator_eq [1, 2, 3] [1, 2, 3, 4 :: int] \<and>
   operator_greater [1, 2, 3] [1, 2, 3, 4 :: int] \<and>
   operator_greater_eq [1, 2, 3] [1, 2, 3, 4 :: int] \<and>
   operator_eq ([] :: int list) [] \<and> \<not> operator_less_eq ([] :: int list) [] \<and>
   operator_less_eq [1, 5] [1, 2 :: int] \<and> \<not> operator_less [1, 5] [1, 2 :: int] \<and>
   \<not> operator_eq [1, 5] [1, 2 :: int]"
  by code_simp

section \<open>Copy assignment to itself\<close>

text \<open>
  Claim C10. In each variant \<^verbatim>\<open>operator=(new_buffer const&)\<close> with \<^verbatim>\<open>this == &other\<close>
  changes nothing: the objects and the heap, and so the size, the capacity and every
  stored element of the buffer, are as before. (The variant with the allocator's usable
  size has the same \<^verbatim>\<open>operator=\<close> as the variant with three fields.)
\<close>

theorem copy_assign_self_is_skipped:
  "copy_assign_inline tr p p si = si \<and> copy_assign_header tr p p sh = sh \<and>
   copy_assign_split tr p p ss = ss"
  by (simp add: copy_assign_inline_def copy_assign_header_def copy_assign_split_def)

section \<open>\<^verbatim>\<open>reserve\<close>\<close>

lemma reallocate_inline_props:
  assumes "valid_inline b h" and "m_size b \<le> n"
  shows "case reallocate_inline tr n (b, h) of
           (b', h') \<Rightarrow>
             m_size b' = m_size b \<and> m_capacity b' = n \<and>
             elems_inline b' h' = elems_inline b h \<and> valid_inline b' h'"
proof (cases "trivially_move_constructible tr \<and> trivially_destructible tr")
  case True
  show ?thesis
  proof (cases "m_data b")
    case Initial_buffer
    with True assms show ?thesis
      by (simp add: valid_inline_def elems_inline_def ptr_read_def allocate_def heap_write_def
          heap_read_def move_into_def take_copy_into word_le_nat_alt)
  next
    case (Heap a)
    with True assms show ?thesis
      by (auto simp: valid_inline_def elems_inline_def ptr_read_def reallocate_def
          heap_read_def take_resize_block word_le_nat_alt)
  qed
next
  case False
  show ?thesis
  proof (cases "m_data b")
    case Initial_buffer
    with False assms show ?thesis
      by (simp add: valid_inline_def elems_inline_def ptr_read_def allocate_def heap_write_def
          heap_read_def move_into_def take_copy_into word_le_nat_alt)
  next
    case (Heap a)
    with False assms show ?thesis
      by (auto simp: valid_inline_def elems_inline_def ptr_read_def allocate_def heap_write_def
          heap_read_def deallocate_def move_into_def take_copy_into word_le_nat_alt)
  qed
qed

lemma reserve_inline_props:
  assumes "valid_inline b h"
  shows "case reserve_inline tr n (b, h) of
           (b', h') \<Rightarrow>
             m_size b' = m_size b \<and> elems_inline b' h' = elems_inline b h \<and>
             m_capacity b' = max (m_capacity b) n \<and> valid_inline b' h'"
proof (cases "m_capacity b < n")
  case True
  with assms have "m_size b \<le> n"
    by (simp add: valid_inline_def word_le_nat_alt word_less_nat_alt)
  from reallocate_inline_props [OF assms this, where tr = tr] True show ?thesis
    by (auto simp: max_def simp del: reallocate_inline.simps split: prod.splits)
next
  case False
  with assms show ?thesis by (simp add: max_def)
qed

lemma reallocate_split_props:
  assumes "valid_split b h" and "m_size_split b \<le> n"
  shows "case reallocate_split tr n (b, h) of
           (b', h') \<Rightarrow>
             m_size_split b' = m_size_split b \<and> m_capacity_split b' = n \<and>
             elems_split b' h' = elems_split b h \<and> valid_split b' h' \<and> m_data_split b' \<noteq> None"
proof (cases "m_data_split b")
  case None
  with assms have "m_size_split b = 0"
    by (auto simp: valid_split_def word_le_nat_alt unat_eq_zero)
  with None assms show ?thesis
    by (simp add: valid_split_def elems_split_def ptr_read_split_def allocate_def heap_write_def
        heap_read_def move_into_def)
next
  case (Some a)
  with assms show ?thesis
    by (auto simp: valid_split_def elems_split_def ptr_read_split_def allocate_def heap_write_def
        reallocate_def heap_read_def deallocate_def move_into_def take_copy_into take_resize_block
        word_le_nat_alt split: option.splits)
qed

lemma resize_split_grow:
  assumes "valid_split b h" and "m_size_split b < count"
  shows "case resize_split tr v count (b, h) of
           (b', h') \<Rightarrow>
             m_size_split b' = count \<and>
             m_capacity_split b' = max (m_capacity_split b) count \<and>
             elems_split b' h' =
               elems_split b h @ replicate (unat count - unat (m_size_split b)) (Live v) \<and>
             valid_split b' h'"
proof -
  obtain b1 h1 where r: "reserve_private_split tr count (b, h) = (b1, h1)"
    by (cases "reserve_private_split tr count (b, h)")
  have p1: "m_size_split b1 = m_size_split b \<and> m_capacity_split b1 = max (m_capacity_split b) count \<and>
            elems_split b1 h1 = elems_split b h \<and> valid_split b1 h1"
  proof (cases "count > m_capacity_split b")
    case True
    from assms have "m_size_split b \<le> count" by simp
    from reallocate_split_props [OF assms(1) this, where tr = tr] True r show ?thesis
      by (auto simp: max_def simp del: reallocate_split.simps)
  next
    case False
    with r assms show ?thesis by (auto simp: max_def)
  qed
  from assms(2) p1 have "0 < unat (m_capacity_split b1)"
    by (auto simp: max_def word_less_nat_alt word_le_nat_alt)
  then have "m_capacity_split b1 \<noteq> 0" by auto
  with p1 obtain a blk where a: "m_data_split b1 = Some a" "blocks h1 a = Some blk"
      "length blk = unat (m_capacity_split b1)" "a < next_addr h1"
    by (auto simp: valid_split_def split: option.splits)
  have le: "unat (m_size_split b) \<le> unat count" "unat count \<le> length blk"
    using assms(2) p1 a(3) by (simp_all add: word_less_nat_alt word_le_nat_alt max_def)
  have "elems_split b1 h1 = take (unat (m_size_split b)) blk"
    using p1 a by (simp add: elems_split_def ptr_read_split_def heap_read_def)
  with p1 have e: "take (unat (m_size_split b)) blk = elems_split b h"
    by simp
  show ?thesis
    using p1 a le e
    by (simp add: r del: reserve_private_split.simps
        add: ptr_read_split_def heap_read_def heap_write_def destroy_empty elems_split_def
          take_construct_range valid_split_def)
qed


lemma reallocate_header_props:
  assumes "valid_header b h" and "size_header b h \<le> n"
  shows "case reallocate_header tr n (b, h) of
           (b', h') \<Rightarrow>
             size_header b' h' = size_header b h \<and> capacity_header b' h' = n \<and>
             elems_header b' h' = elems_header b h \<and> valid_header b' h' \<and>
             m_data_hdr b' \<noteq> None"
proof (cases "m_data_hdr b")
  case None
  with assms show ?thesis
    by (simp add: valid_header_def elems_header_def ptr_read_header_def allocate_def
        heap_write_def header_def size_header_def capacity_header_def)
next
  case (Some a)
  with assms show ?thesis
    by (auto simp: valid_header_def elems_header_def ptr_read_header_def allocate_def
        heap_write_def header_def size_header_def capacity_header_def deallocate_def
        move_into_def take_copy_into take_resize_block word_le_nat_alt Let_def
        split: option.splits)
qed

lemma resize_header_grow:
  assumes "valid_header b h" and "size_header b h < count"
  shows "case resize_header tr v count (b, h) of
           (b', h') \<Rightarrow>
             size_header b' h' = count \<and>
             capacity_header b' h' = max (capacity_header b h) count \<and>
             elems_header b' h' =
               elems_header b h @ replicate (unat count - unat (size_header b h)) (Live v) \<and>
             valid_header b' h'"
proof -
  obtain b1 h1 where r: "reserve_private_header tr count (b, h) = (b1, h1)"
    by (cases "reserve_private_header tr count (b, h)")
  have p1: "size_header b1 h1 = size_header b h \<and>
            capacity_header b1 h1 = max (capacity_header b h) count \<and>
            elems_header b1 h1 = elems_header b h \<and> valid_header b1 h1"
  proof (cases "count > capacity_header b h")
    case True
    from assms have "size_header b h \<le> count" by simp
    from reallocate_header_props [OF assms(1) this, where tr = tr] True r show ?thesis
      by (auto simp: max_def simp del: reallocate_header.simps)
  next
    case False
    with r assms show ?thesis by (auto simp: max_def)
  qed
  from assms(2) have nz: "count \<noteq> 0" by auto
  from assms(2) p1 have "0 < unat (capacity_header b1 h1)"
    by (auto simp: max_def word_less_nat_alt word_le_nat_alt)
  then have "capacity_header b1 h1 \<noteq> 0" by auto
  with p1 obtain a blk where a: "m_data_hdr b1 = Some a" "blocks h1 a = Some blk"
      "length (slots blk) = unat (m_capacity_hdr blk)" "a < next_addr h1"
    by (auto simp: valid_header_def capacity_header_def split: option.splits)
  have sc: "size_header b1 h1 = m_size_hdr blk" "capacity_header b1 h1 = m_capacity_hdr blk"
    using a by (simp_all add: size_header_def capacity_header_def header_def)
  have le: "unat (size_header b h) \<le> unat count" "unat count \<le> length (slots blk)"
    using assms(2) p1 a(3) sc by (simp_all add: word_less_nat_alt word_le_nat_alt max_def)
  have "elems_header b1 h1 = take (unat (size_header b h)) (slots blk)"
    using p1 a by (simp add: elems_header_def ptr_read_header_def header_def)
  with p1 have e: "take (unat (size_header b h)) (slots blk) = elems_header b h"
    by simp
  have c: "count \<le> max (capacity_header b h) count" by simp
  show ?thesis
    using p1 a le e nz sc c
    by (simp add: r del: reserve_private_header.simps
        add: ptr_read_header_def header_def heap_write_def destroy_empty elems_header_def
          take_construct_range valid_header_def size_header_def capacity_header_def)
qed

text \<open>
  Claim C7, as the code has it. On a well-formed buffer, \<^verbatim>\<open>reserve(n)\<close> of the inline
  variant leaves the size and the stored elements unchanged and makes the capacity the
  larger of the old capacity and \<open>n\<close>. In the header variant and the variant with three
  fields \<^verbatim>\<open>reserve(n)\<close> is an enlarge-only \<^verbatim>\<open>resize\<close>: with \<open>n\<close> at most the size it
  changes nothing; with \<open>n\<close> above the size the size becomes \<open>n\<close>, the old elements are
  followed by default-constructed ones, and the capacity is the larger of the old
  capacity and \<open>n\<close>.
\<close>

theorem reserve_effect:
  assumes "valid_inline bi hi" and "valid_header bh hh" and "valid_split bs hs"
  shows "(case reserve_inline tr n (bi, hi) of
            (b', h') \<Rightarrow>
              m_size b' = m_size bi \<and> elems_inline b' h' = elems_inline bi hi \<and>
              m_capacity b' = max (m_capacity bi) n) \<and>
         (case reserve_header tr dflt n (bh, hh) of
            (b', h') \<Rightarrow>
              if n > size_header bh hh
              then size_header b' h' = n \<and>
                   elems_header b' h' =
                     elems_header bh hh @ replicate (unat n - unat (size_header bh hh)) (Live dflt) \<and>
                   capacity_header b' h' = max (capacity_header bh hh) n
              else (b', h') = (bh, hh)) \<and>
         (case reserve_split tr dflt n (bs, hs) of
            (b', h') \<Rightarrow>
              if n > m_size_split bs
              then m_size_split b' = n \<and>
                   elems_split b' h' =
                     elems_split bs hs @ replicate (unat n - unat (m_size_split bs)) (Live dflt) \<and>
                   m_capacity_split b' = max (m_capacity_split bs) n
              else (b', h') = (bs, hs))"
proof (intro conjI)
  from reserve_inline_props [OF assms(1), where tr = tr and n = n]
  show "case reserve_inline tr n (bi, hi) of
          (b', h') \<Rightarrow>
            m_size b' = m_size bi \<and> elems_inline b' h' = elems_inline bi hi \<and>
            m_capacity b' = max (m_capacity bi) n"
    by (simp del: reserve_inline.simps split: prod.splits)
next
  show "case reserve_header tr dflt n (bh, hh) of
          (b', h') \<Rightarrow>
            if n > size_header bh hh
            then size_header b' h' = n \<and>
                 elems_header b' h' =
                   elems_header bh hh @ replicate (unat n - unat (size_header bh hh)) (Live dflt) \<and>
                 capacity_header b' h' = max (capacity_header bh hh) n
            else (b', h') = (bh, hh)"
  proof (cases "n > size_header bh hh")
    case True
    from resize_header_grow [OF assms(2) True, where tr = tr and v = dflt] True show ?thesis
      by (simp del: resize_header.simps split: prod.splits)
  next
    case False
    then show ?thesis by simp
  qed
next
  show "case reserve_split tr dflt n (bs, hs) of
          (b', h') \<Rightarrow>
            if n > m_size_split bs
            then m_size_split b' = n \<and>
                 elems_split b' h' =
                   elems_split bs hs @ replicate (unat n - unat (m_size_split bs)) (Live dflt) \<and>
                 m_capacity_split b' = max (m_capacity_split bs) n
            else (b', h') = (bs, hs)"
  proof (cases "n > m_size_split bs")
    case True
    from resize_split_grow [OF assms(3) True, where tr = tr and v = dflt] True show ?thesis
      by (simp del: resize_split.simps split: prod.splits)
  next
    case False
    then show ?thesis by simp
  qed
qed

text \<open>
  The theorem at buffers holding two elements: \<^verbatim>\<open>reserve(10)\<close> on the inline variant
  with 4 inline slots, \<^verbatim>\<open>reserve(4)\<close> on the other two.
\<close>

theorem reserve_effect_witness:
  "valid_inline (fst (inline_of traits_string 4 [1, 2 :: int]))
     (snd (inline_of traits_string 4 [1, 2 :: int])) \<and>
   valid_header (fst (header_of traits_string [1, 2 :: int]))
     (snd (header_of traits_string [1, 2 :: int])) \<and>
   valid_split (fst (split_of traits_string [1, 2 :: int]))
     (snd (split_of traits_string [1, 2 :: int])) \<and>
   (case reserve_inline traits_string 10 (inline_of traits_string 4 [1, 2 :: int]) of
      (b', h') \<Rightarrow>
        m_size b' = 2 \<and> elems_inline b' h' = [Live 1, Live 2] \<and> m_capacity b' = 10) \<and>
   (case reserve_header traits_string 0 4 (header_of traits_string [1, 2 :: int]) of
      (b', h') \<Rightarrow>
        size_header b' h' = 4 \<and>
        elems_header b' h' = [Live 1, Live 2, Live 0, Live 0] \<and>
        capacity_header b' h' = 4) \<and>
   (case reserve_split traits_string 0 4 (split_of traits_string [1, 2 :: int]) of
      (b', h') \<Rightarrow>
        m_size_split b' = 4 \<and>
        elems_split b' h' = [Live 1, Live 2, Live 0, Live 0] \<and>
        m_capacity_split b' = 4)"
proof -
  have h1: "valid_inline (fst (inline_of traits_string 4 [1, 2 :: int]))
              (snd (inline_of traits_string 4 [1, 2 :: int]))"
    by code_simp
  have h2: "valid_header (fst (header_of traits_string [1, 2 :: int]))
              (snd (header_of traits_string [1, 2 :: int]))"
    by code_simp
  have h3: "valid_split (fst (split_of traits_string [1, 2 :: int]))
              (snd (split_of traits_string [1, 2 :: int]))"
    by code_simp
  have b1: "m_size (fst (inline_of traits_string 4 [1, 2 :: int])) = 2 \<and>
            m_capacity (fst (inline_of traits_string 4 [1, 2 :: int])) = 4 \<and>
            elems_inline (fst (inline_of traits_string 4 [1, 2 :: int]))
              (snd (inline_of traits_string 4 [1, 2 :: int])) = [Live 1, Live 2]"
    by code_simp
  have b2: "size_header (fst (header_of traits_string [1, 2 :: int]))
              (snd (header_of traits_string [1, 2 :: int])) = 2 \<and>
            capacity_header (fst (header_of traits_string [1, 2 :: int]))
              (snd (header_of traits_string [1, 2 :: int])) = 2 \<and>
            elems_header (fst (header_of traits_string [1, 2 :: int]))
              (snd (header_of traits_string [1, 2 :: int])) = [Live 1, Live 2]"
    by code_simp
  have b3: "m_size_split (fst (split_of traits_string [1, 2 :: int])) = 2 \<and>
            m_capacity_split (fst (split_of traits_string [1, 2 :: int])) = 2 \<and>
            elems_split (fst (split_of traits_string [1, 2 :: int]))
              (snd (split_of traits_string [1, 2 :: int])) = [Live 1, Live 2]"
    by code_simp
  have r: "replicate 2 (Live 0) = [Live 0, Live 0]"
    by (simp add: numeral_2_eq_2)
  from reserve_effect [OF h1 h2 h3, where tr = traits_string and dflt = 0 and n = 10]
  have c1: "case reserve_inline traits_string 10 (inline_of traits_string 4 [1, 2 :: int]) of
      (b', h') \<Rightarrow>
        m_size b' = 2 \<and> elems_inline b' h' = [Live 1, Live 2] \<and> m_capacity b' = 10"
    using b1 by (simp del: reserve_inline.simps)
  from reserve_effect [OF h1 h2 h3, where tr = traits_string and dflt = 0 and n = 4]
  have c2: "(case reserve_header traits_string 0 4 (header_of traits_string [1, 2 :: int]) of
      (b', h') \<Rightarrow>
        size_header b' h' = 4 \<and>
        elems_header b' h' = [Live 1, Live 2, Live 0, Live 0] \<and>
        capacity_header b' h' = 4) \<and>
   (case reserve_split traits_string 0 4 (split_of traits_string [1, 2 :: int]) of
      (b', h') \<Rightarrow>
        m_size_split b' = 4 \<and>
        elems_split b' h' = [Live 1, Live 2, Live 0, Live 0] \<and>
        m_capacity_split b' = 4)"
    using b2 b3 by (simp add: r del: reserve_header.simps reserve_split.simps)
  from h1 h2 h3 c1 c2 show ?thesis by blast
qed

text \<open>
  In the variant with three fields, \<^verbatim>\<open>reserve(5)\<close> on a buffer of two elements changes
  the size.
\<close>

theorem reserve_changes_size_counterexample:
  "m_size_split (fst (reserve_split traits_unsigned 0 5 (split_of traits_unsigned [1, 2 :: int]))) \<noteq>
   m_size_split (fst (split_of traits_unsigned [1, 2 :: int]))"
  by code_simp

section \<open>Moving from a buffer\<close>

lemma replicate_next_capacity_0:
  "replicate (unat (next_capacity 0)) (x :: 'a slot) = [x, x]"
proof -
  have "unat (next_capacity 0) = Suc (Suc 0)" by (simp add: next_capacity_def)
  then show ?thesis by simp
qed

lemma move_construct_split_source:
  assumes "this \<noteq> other"
  shows "(let s' = move_construct_split this other s; b = objs s' other in
           m_data_split b = None \<and> m_size_split b = 0 \<and> m_capacity_split b = 0 \<and>
           objs s' this = objs s other \<and>
           (case push_back_split tr v (b, mem s') of
              (b', h') \<Rightarrow> m_size_split b' = 1 \<and> elems_split b' h' = [Live v]))"
  using assms
  by (simp add: move_construct_split_def Let_def replicate_next_capacity_0 allocate_def heap_write_def
      heap_read_def ptr_read_split_def elems_split_def put_slot_def move_into_def destroy_empty)

lemma move_construct_header_source:
  assumes "this \<noteq> other"
  shows "(let s' = move_construct_header this other s; b = objs s' other in
           m_data_hdr b = None \<and> size_header b (mem s') = 0 \<and> capacity_header b (mem s') = 0 \<and>
           objs s' this = objs s other \<and>
           (case push_back_header tr v (b, mem s') of
              (b', h') \<Rightarrow> size_header b' h' = 1 \<and> elems_header b' h' = [Live v]))"
  using assms
  by (simp add: move_construct_header_def Let_def replicate_next_capacity_0 allocate_def heap_write_def
      header_def size_header_def capacity_header_def
      ptr_read_header_def elems_header_def put_slot_def move_into_def destroy_empty)

lemma move_construct_inline_source:
  assumes "this \<noteq> other" and "m_data (objs s other) = Initial_buffer"
    and "m_capacity (objs s other) = N" and "length (m_initial_buffer (objs s other)) = unat N"
    and "0 < N"
  shows "(let s' = move_construct_inline tr N this other s; b = objs s' other in
           m_data b = Initial_buffer \<and> m_size b = 0 \<and> m_capacity b = N \<and>
           (case push_back_inline tr v (b, mem s') of
              (b', h') \<Rightarrow> m_data b' = Initial_buffer \<and> m_size b' = 1 \<and> elems_inline b' h' = [Live v]))"
proof -
  from assms(5) have "0 < unat N" by (simp add: word_less_nat_alt)
  with assms show ?thesis
  by (simp add: move_construct_inline_def Let_def at_obj_def ptr_read_def elems_inline_def put_slot_def
     word_le_nat_alt take_Suc_conv_app_nth)
qed

lemma move_assign_split_exchanges:
  assumes "this \<noteq> other"
  shows "(let s' = move_assign_split this other s in
           objs s' other = objs s this \<and> objs s' this = objs s other \<and> mem s' = mem s)"
  using assms by (simp add: move_assign_split_def swap_split_def Let_def)

lemma move_assign_header_exchanges:
  assumes "this \<noteq> other"
  shows "(let s' = move_assign_header this other s in
           objs s' other = objs s this \<and> objs s' this = objs s other \<and> mem s' = mem s)"
  using assms by (simp add: move_assign_header_def swap_header_def Let_def)

lemma move_assign_inline_heap_exchanges:
  assumes "this \<noteq> other" and "m_data (objs s this) \<noteq> Initial_buffer"
    and "m_data (objs s other) \<noteq> Initial_buffer"
  shows "(let s' = move_assign_inline tr N this other s in
           m_size (objs s' other) = m_size (objs s this) \<and>
           m_capacity (objs s' other) = m_capacity (objs s this) \<and>
           elems_inline (objs s' other) (mem s') = elems_inline (objs s this) (mem s) \<and>
           m_size (objs s' this) = m_size (objs s other) \<and>
           m_capacity (objs s' this) = m_capacity (objs s other) \<and>
           elems_inline (objs s' this) (mem s') = elems_inline (objs s other) (mem s))"
  using assms by (simp add: move_assign_inline_def Let_def elems_inline_def ptr_read_def split: ptr.splits)

text \<open>
  Claim C1, as the code has it. Move construction from \<open>b\<close> leaves \<open>b\<close> empty and usable:
  in the header variant and the variant with three fields \<open>b\<close> is left null with size 0
  and capacity 0; in the inline variant with \<open>N\<close> slots, when \<open>b\<close> was using its inline
  slots with capacity \<open>N\<close>, it is left with size 0, inline storage and capacity \<open>N\<close>; in
  each case a \<^verbatim>\<open>push_back\<close> on \<open>b\<close> afterwards leaves exactly the pushed element in it.
  Move assignment \<^verbatim>\<open>dst = std::move(b)\<close> in the header variant, in the variant with three
  fields, and in the inline variant when both buffers are on the heap, exchanges the two
  buffers: \<open>b\<close> afterwards holds what \<open>dst\<close> held.
\<close>

theorem move_leaves_source:
  assumes "this \<noteq> other"
    and "m_data (objs si other) = Initial_buffer" and "m_capacity (objs si other) = N"
    and "length (m_initial_buffer (objs si other)) = unat N" and "0 < N"
    and "m_data (objs sj this) \<noteq> Initial_buffer" and "m_data (objs sj other) \<noteq> Initial_buffer"
  shows "(let s' = move_construct_header this other sh; b = objs s' other in
           m_data_hdr b = None \<and> size_header b (mem s') = 0 \<and> capacity_header b (mem s') = 0 \<and>
           objs s' this = objs sh other \<and>
           (case push_back_header tr v (b, mem s') of
              (b', h') \<Rightarrow> size_header b' h' = 1 \<and> elems_header b' h' = [Live v])) \<and>
         (let s' = move_construct_split this other ss; b = objs s' other in
           m_data_split b = None \<and> m_size_split b = 0 \<and> m_capacity_split b = 0 \<and>
           objs s' this = objs ss other \<and>
           (case push_back_split tr v (b, mem s') of
              (b', h') \<Rightarrow> m_size_split b' = 1 \<and> elems_split b' h' = [Live v])) \<and>
         (let s' = move_construct_inline tr N this other si; b = objs s' other in
           m_data b = Initial_buffer \<and> m_size b = 0 \<and> m_capacity b = N \<and>
           (case push_back_inline tr v (b, mem s') of
              (b', h') \<Rightarrow>
                m_data b' = Initial_buffer \<and> m_size b' = 1 \<and> elems_inline b' h' = [Live v])) \<and>
         (let s' = move_assign_header this other sh in
           objs s' other = objs sh this \<and> objs s' this = objs sh other \<and> mem s' = mem sh) \<and>
         (let s' = move_assign_split this other ss in
           objs s' other = objs ss this \<and> objs s' this = objs ss other \<and> mem s' = mem ss) \<and>
         (let s' = move_assign_inline tr N this other sj in
           m_size (objs s' other) = m_size (objs sj this) \<and>
           m_capacity (objs s' other) = m_capacity (objs sj this) \<and>
           elems_inline (objs s' other) (mem s') = elems_inline (objs sj this) (mem sj) \<and>
           m_size (objs s' this) = m_size (objs sj other) \<and>
           m_capacity (objs s' this) = m_capacity (objs sj other) \<and>
           elems_inline (objs s' this) (mem s') = elems_inline (objs sj other) (mem sj))"
  by (intro conjI move_construct_header_source move_construct_split_source
      move_construct_inline_source move_assign_header_exchanges move_assign_split_exchanges
      move_assign_inline_heap_exchanges assms)

text \<open>
  The theorem at two inline-variant buffers with 4 inline slots: the source of the move
  construction holds one element in its inline slots, the two buffers of the heap case
  hold five and six elements.
\<close>

theorem move_leaves_source_witness:
  "(0 :: nat) \<noteq> 1 \<and>
   m_data (objs (two_buffers traits_string 4 [1, 2, 3, 4, 5 :: int] [9 :: int]) 1) =
     Initial_buffer \<and>
   m_capacity (objs (two_buffers traits_string 4 [1, 2, 3, 4, 5 :: int] [9 :: int]) 1) = 4 \<and>
   length (m_initial_buffer
     (objs (two_buffers traits_string 4 [1, 2, 3, 4, 5 :: int] [9 :: int]) 1)) =
     unat (4 :: size_type) \<and>
   (0 :: size_type) < 4 \<and>
   m_data (objs (two_buffers traits_string 4 [1, 2, 3, 4, 5 :: int]
     [11, 12, 13, 14, 15, 16 :: int]) 0) \<noteq> Initial_buffer \<and>
   m_data (objs (two_buffers traits_string 4 [1, 2, 3, 4, 5 :: int]
     [11, 12, 13, 14, 15, 16 :: int]) 1) \<noteq> Initial_buffer \<and>
   (let s' = move_construct_inline traits_string 4 0 1
               (two_buffers traits_string 4 [1, 2, 3, 4, 5 :: int] [9 :: int]);
        b = objs s' 1 in
      m_data b = Initial_buffer \<and> m_size b = 0 \<and> m_capacity b = 4 \<and>
      (case push_back_inline traits_string 8 (b, mem s') of
         (b', h') \<Rightarrow>
           m_data b' = Initial_buffer \<and> m_size b' = 1 \<and> elems_inline b' h' = [Live 8]))"
proof -
  have h1: "(0 :: nat) \<noteq> 1" by simp
  have h2: "m_data (objs (two_buffers traits_string 4 [1, 2, 3, 4, 5 :: int] [9 :: int]) 1) =
     Initial_buffer" by code_simp
  have h3: "m_capacity (objs (two_buffers traits_string 4 [1, 2, 3, 4, 5 :: int] [9 :: int]) 1) = 4"
    by code_simp
  have h4: "length (m_initial_buffer
     (objs (two_buffers traits_string 4 [1, 2, 3, 4, 5 :: int] [9 :: int]) 1)) =
     unat (4 :: size_type)"
    by code_simp
  have h5: "(0 :: size_type) < 4" by simp
  have h6: "m_data (objs (two_buffers traits_string 4 [1, 2, 3, 4, 5 :: int]
     [11, 12, 13, 14, 15, 16 :: int]) 0) \<noteq> Initial_buffer" by code_simp
  have h7: "m_data (objs (two_buffers traits_string 4 [1, 2, 3, 4, 5 :: int]
     [11, 12, 13, 14, 15, 16 :: int]) 1) \<noteq> Initial_buffer" by code_simp
  note c = move_leaves_source [OF h1 h2 h3 h4 h5 h6 h7, where tr = traits_string and v = 8,
      THEN conjunct2, THEN conjunct2, THEN conjunct1]
  show ?thesis
    by (rule conjI [OF h1 conjI [OF h2 conjI [OF h3 conjI [OF h4 conjI [OF h5
          conjI [OF h6 conjI [OF h7 c]]]]]]])
qed

text \<open>
  In the variant with three fields, after \<^verbatim>\<open>dst = std::move(b)\<close> with \<open>dst\<close> holding one
  element, \<open>b\<close> is not empty.
\<close>

theorem move_assign_source_not_empty_counterexample:
  "m_size_split
     (objs (move_assign_split 0 1 (two_buffers_split traits_unsigned [7] [1, 2 :: int])) 1) \<noteq> 0"
  by code_simp


section \<open>\<^verbatim>\<open>erase\<close> by value\<close>

lemma length_move_forward [simp]: "length (move_forward dst src i count blk) = length blk"
  by (induction dst src i count blk rule: move_forward.induct)
     (simp add: move_forward.simps [of _ _ i count for i count])

lemma nth_move_forward:
  assumes "src = Suc dst" and "dst + count < length blk" and "j < length blk"
  shows "move_forward dst src i count blk ! j =
           (if dst + i \<le> j \<and> j < dst + count then blk ! Suc j
            else if j = dst + count \<and> i < count then Raw
            else blk ! j)"
  using assms
proof (induction dst src i count blk rule: move_forward.induct)
  case (1 dst src i count blk)
  show ?case
  proof (cases "i < count")
    case True
    let ?blk = "put_slot (put_slot blk (dst + i) (get_slot blk (src + i))) (src + i) Raw"
    have "move_forward dst src i count blk ! j = move_forward dst src (Suc i) count ?blk ! j"
      using True by (simp add: move_forward.simps [of dst src i count blk])
    also have "\<dots> = (if dst + Suc i \<le> j \<and> j < dst + count then ?blk ! Suc j
            else if j = dst + count \<and> Suc i < count then Raw
            else ?blk ! j)"
      using 1 True by simp
    also have "\<dots> = (if dst + i \<le> j \<and> j < dst + count then blk ! Suc j
            else if j = dst + count \<and> i < count then Raw
            else blk ! j)"
      using 1(2-4) True by (auto simp: put_slot_def get_slot_def nth_list_update)
    finally show ?thesis .
  next
    case False
    then show ?thesis by (auto simp: move_forward.simps [of dst src i count blk])
  qed
qed

lemma length_memmove [simp]: "length (memmove blk dst src count) = length blk"
  by (simp add: memmove_def)

lemma length_destroy_at [simp]: "length (destroy_at tr blk i) = length blk"
  by (simp add: destroy_at_def)

lemma nth_destroy_at: "j \<noteq> i \<Longrightarrow> destroy_at tr blk i ! j = blk ! j"
  by (simp add: destroy_at_def put_slot_def)

lemma length_move_around [simp]: "dst < src \<Longrightarrow> length (move_around tr blk dst src count) = length blk"
  by (simp add: move_around_def)

lemma erase_block:
  assumes "i < n" and "n \<le> length blk"
  shows "take (n - 1) (move_around tr (destroy_at tr blk i) i (i + 1) (n - i - 1)) =
           take i blk @ drop (Suc i) (take n blk)"
proof (rule nth_equalityI)
  show "length (take (n - 1) (move_around tr (destroy_at tr blk i) i (i + 1) (n - i - 1))) =
          length (take i blk @ drop (Suc i) (take n blk))"
    using assms by (auto simp: min_def)
next
  fix j
  assume "j < length (take (n - 1) (move_around tr (destroy_at tr blk i) i (i + 1) (n - i - 1)))"
  with assms have j: "j < n - 1" by simp
  have rhs: "(take i blk @ drop (Suc i) (take n blk)) ! j = (if j < i then blk ! j else blk ! Suc j)"
    using assms j by (auto simp: nth_append min_def)
  have "move_around tr (destroy_at tr blk i) i (i + 1) (n - i - 1) ! j =
          (if j < i then blk ! j else blk ! Suc j)"
  proof (cases "trivially_move_constructible tr")
    case True
    with assms j show ?thesis
      by (auto simp: move_around_def memmove_def get_slot_def nth_destroy_at)
  next
    case False
    have "move_forward i (Suc i) 0 (n - i - 1) (destroy_at tr blk i) ! j =
            (if i + 0 \<le> j \<and> j < i + (n - i - 1) then destroy_at tr blk i ! Suc j
             else if j = i + (n - i - 1) \<and> 0 < n - i - 1 then Raw
             else destroy_at tr blk i ! j)"
      using assms j by (intro nth_move_forward) simp_all
    with False assms j show ?thesis
      by (auto simp: move_around_def nth_destroy_at)
  qed
  with j rhs show "take (n - 1) (move_around tr (destroy_at tr blk i) i (i + 1) (n - i - 1)) ! j =
          (take i blk @ drop (Suc i) (take n blk)) ! j"
    by simp
qed

lemma std_find_le: "std_find xs v \<le> length xs"
  by (induction xs) simp_all

lemma std_find_takeWhile: "std_find xs v = length (takeWhile (\<lambda>s. s \<noteq> Live v) xs)"
  by (induction xs) simp_all

lemma std_find_less_iff: "std_find xs v < length xs \<longleftrightarrow> Live v \<in> set xs"
  by (induction xs) auto

lemma std_find_remove1:
  "Live v \<in> set xs \<Longrightarrow>
   take (std_find xs v) xs @ drop (Suc (std_find xs v)) xs = remove1 (Live v) xs"
  by (induction xs) auto


lemma erase_value_split_props:
  assumes "valid_split b h"
  shows "case erase_value_split tr element (b, h) of
           (it, b', h') \<Rightarrow>
             if Live element \<in> set (elems_split b h)
             then it = length (takeWhile (\<lambda>s. s \<noteq> Live element) (elems_split b h)) \<and>
                  elems_split b' h' = remove1 (Live element) (elems_split b h) \<and>
                  unat (m_size_split b') = unat (m_size_split b) - 1 \<and>
                  m_capacity_split b' = m_capacity_split b
             else it = unat (m_size_split b) \<and> (b', h') = (b, h)"
proof -
  let ?xs = "elems_split b h"
  let ?n = "unat (m_size_split b)"
  let ?i = "std_find ?xs element"
  have cap: "?n \<le> unat (m_capacity_split b)"
    using assms by (simp add: valid_split_def word_le_nat_alt)
  show ?thesis
  proof (cases "Live element \<in> set ?xs")
    case False
    then have "\<not> ?i < length ?xs" by (simp add: std_find_less_iff)
    moreover have "length ?xs \<le> ?n" by (simp add: elems_split_def)
    moreover have "?i \<le> length ?xs" by (rule std_find_le)
    ultimately have "?i = ?n \<or> length ?xs < ?n" by linarith
    moreover have "length ?xs = ?n"
      using assms cap
      by (cases "m_data_split b")
         (auto simp: valid_split_def elems_split_def ptr_read_split_def heap_read_def
            split: option.splits)
    ultimately show ?thesis using False by (simp add: Let_def del: erase_split.simps)
  next
    case True
    then have nonempty: "?xs \<noteq> []" by auto
    then obtain a where a: "m_data_split b = Some a"
      by (cases "m_data_split b") (auto simp: elems_split_def ptr_read_split_def)
    with assms obtain blk where blk: "blocks h a = Some blk" "length blk = unat (m_capacity_split b)"
      by (auto simp: valid_split_def split: option.splits)
    have xs: "?xs = take ?n blk"
      using a blk by (simp add: elems_split_def ptr_read_split_def heap_read_def)
    with cap blk have len: "length ?xs = ?n" by simp
    from True have "?i < length ?xs" by (simp add: std_find_less_iff)
    with len have i: "?i < ?n" by simp
    from i have ui: "unat (word_of_nat ?i :: size_type) = ?i"
      by (intro le_unat_uoi [of _ "m_size_split b"]) simp
    with i have idx: "(word_of_nat ?i :: size_type) \<le> m_size_split b"
      by (simp add: word_le_nat_alt)
    have d: "unat (m_size_split b - word_of_nat ?i) = ?n - ?i"
      using idx ui by (simp add: unat_sub)
    with i have "m_size_split b - word_of_nat ?i \<noteq> 0"
      by (auto simp flip: unat_eq_zero)
    with d have cnt: "unat (m_size_split b - word_of_nat ?i - 1) = ?n - ?i - 1"
      by (simp add: unat_minus_one)
    from i have "m_size_split b \<noteq> 0" by auto
    then have sz: "unat (m_size_split b - 1) = ?n - 1"
      by (simp add: unat_minus_one)
    have e: "take (?n - 1) (move_around tr (destroy_at tr blk ?i) ?i (?i + 1) (?n - ?i - 1)) =
               take ?i blk @ drop (Suc ?i) (take ?n blk)"
      using i cap blk by (intro erase_block) simp_all
    have "take ?i blk = take ?i ?xs" using i xs by (simp add: min_def)
    with e xs std_find_remove1 [OF True]
    have e': "take (?n - 1) (move_around tr (destroy_at tr blk ?i) ?i (?i + 1) (?n - ?i - 1)) =
                remove1 (Live element) ?xs"
      by simp
    have ne: "?i \<noteq> ?n" using i by simp
    have new: "elems_split (b\<lparr>m_size_split := m_size_split b - 1\<rparr>)
                 (h\<lparr>blocks := (blocks h)(a \<mapsto> ys)\<rparr>) = take (?n - 1) ys" for ys
      using a sz by (simp add: elems_split_def ptr_read_split_def heap_read_def)
    show ?thesis
      using True a blk ui cnt sz e' ne
      by (simp add: Let_def ptr_read_split_def heap_read_def heap_write_def new
          std_find_takeWhile [symmetric])
  qed
qed

lemma erase_value_header_props:
  assumes "valid_header b h"
  shows "case erase_value_header tr element (b, h) of
           (it, b', h') \<Rightarrow>
             if Live element \<in> set (elems_header b h)
             then it = length (takeWhile (\<lambda>s. s \<noteq> Live element) (elems_header b h)) \<and>
                  elems_header b' h' = remove1 (Live element) (elems_header b h) \<and>
                  unat (size_header b' h') = unat (size_header b h) - 1 \<and>
                  capacity_header b' h' = capacity_header b h
             else it = unat (size_header b h) \<and> (b', h') = (b, h)"
proof -
  let ?xs = "elems_header b h"
  let ?n = "unat (size_header b h)"
  let ?i = "std_find ?xs element"
  have len: "length ?xs = ?n"
    using assms
    by (cases "m_data_hdr b")
       (auto simp: valid_header_def elems_header_def ptr_read_header_def size_header_def
          header_def word_le_nat_alt split: option.splits)
  show ?thesis
  proof (cases "Live element \<in> set ?xs")
    case False
    then have "\<not> ?i < length ?xs" by (simp add: std_find_less_iff)
    moreover have "?i \<le> length ?xs" by (rule std_find_le)
    ultimately have "?i = ?n" using len by linarith
    then show ?thesis using False by (simp add: Let_def del: erase_header.simps)
  next
    case True
    then have nonempty: "?xs \<noteq> []" by auto
    then obtain a where a: "m_data_hdr b = Some a"
      by (cases "m_data_hdr b") (auto simp: elems_header_def ptr_read_header_def)
    with assms obtain hb where hb: "blocks h a = Some hb" "m_size_hdr hb \<le> m_capacity_hdr hb"
        "length (slots hb) = unat (m_capacity_hdr hb)"
      by (auto simp: valid_header_def split: option.splits)
    have sh: "size_header b h = m_size_hdr hb" "capacity_header b h = m_capacity_hdr hb"
      using a hb by (simp_all add: size_header_def capacity_header_def header_def)
    have cap: "?n \<le> length (slots hb)"
      using hb sh by (simp add: word_le_nat_alt)
    have xs: "?xs = take ?n (slots hb)"
      using a hb by (simp add: elems_header_def ptr_read_header_def header_def)
    from True have "?i < length ?xs" by (simp add: std_find_less_iff)
    with len have i: "?i < ?n" by simp
    from i have ui: "unat (word_of_nat ?i :: size_type) = ?i"
      by (intro le_unat_uoi [of _ "size_header b h"]) simp
    with i have idx: "(word_of_nat ?i :: size_type) \<le> size_header b h"
      by (simp add: word_le_nat_alt)
    have d: "unat (size_header b h - word_of_nat ?i) = ?n - ?i"
      using idx ui by (simp add: unat_sub)
    with i have "size_header b h - word_of_nat ?i \<noteq> 0"
      by (auto simp flip: unat_eq_zero)
    with d have cnt: "unat (size_header b h - word_of_nat ?i - 1) = ?n - ?i - 1"
      by (simp add: unat_minus_one)
    from i have "size_header b h \<noteq> 0" by auto
    then have sz: "unat (size_header b h - 1) = ?n - 1"
      by (simp add: unat_minus_one)
    have e: "take (?n - 1)
               (move_around tr (destroy_at tr (slots hb) ?i) ?i (?i + 1) (?n - ?i - 1)) =
               take ?i (slots hb) @ drop (Suc ?i) (take ?n (slots hb))"
      using i cap by (intro erase_block) simp_all
    have "take ?i (slots hb) = take ?i ?xs" using i xs by (simp add: min_def)
    with e xs std_find_remove1 [OF True]
    have e': "take (?n - 1)
                (move_around tr (destroy_at tr (slots hb) ?i) ?i (?i + 1) (?n - ?i - 1)) =
                remove1 (Live element) ?xs"
      by simp
    have ne: "?i \<noteq> ?n" using i by simp
    have new: "elems_header b
                 (h\<lparr>blocks := (blocks h)
                      (a \<mapsto> hb\<lparr>slots := ys, m_size_hdr := m_size_hdr hb - 1\<rparr>)\<rparr>) =
               take (?n - 1) ys" for ys
      using a sz sh by (simp add: elems_header_def ptr_read_header_def header_def size_header_def)
    show ?thesis
      using True a hb ui cnt sz e' ne sh
      by (simp add: Let_def ptr_read_header_def header_def heap_write_def new size_header_def
          capacity_header_def std_find_takeWhile [symmetric])
  qed
qed

text \<open>
  Claim C9. On a well-formed buffer of the variant with three fields or of the header
  variant, \<^verbatim>\<open>erase(element)\<close> searches from the front. If some element equals \<open>element\<close>,
  it returns the position of the first one and removes exactly that occurrence: the size
  is one less, the elements after it have moved down by one and the order of the rest is
  as before (the capacity is unchanged). If no element equals \<open>element\<close>, it returns
  \<^verbatim>\<open>end()\<close> and object and heap are unchanged.
\<close>

theorem erase_value_removes_first_occurrence:
  assumes "valid_split bs hs" and "valid_header bh hh"
  shows "(case erase_value_split tr element (bs, hs) of
            (it, b', h') \<Rightarrow>
              if Live element \<in> set (elems_split bs hs)
              then it = length (takeWhile (\<lambda>s. s \<noteq> Live element) (elems_split bs hs)) \<and>
                   elems_split b' h' = remove1 (Live element) (elems_split bs hs) \<and>
                   unat (m_size_split b') = unat (m_size_split bs) - 1 \<and>
                   m_capacity_split b' = m_capacity_split bs
              else it = unat (m_size_split bs) \<and> (b', h') = (bs, hs)) \<and>
         (case erase_value_header tr element (bh, hh) of
            (it, b', h') \<Rightarrow>
              if Live element \<in> set (elems_header bh hh)
              then it = length (takeWhile (\<lambda>s. s \<noteq> Live element) (elems_header bh hh)) \<and>
                   elems_header b' h' = remove1 (Live element) (elems_header bh hh) \<and>
                   unat (size_header b' h') = unat (size_header bh hh) - 1 \<and>
                   capacity_header b' h' = capacity_header bh hh
              else it = unat (size_header bh hh) \<and> (b', h') = (bh, hh))"
  by (intro conjI erase_value_split_props erase_value_header_props assms)

text \<open>
  The theorem at the buffer 1, 2, 3, 2 of the variant with three fields and the buffer
  1, 2, 2 of the header variant: \<^verbatim>\<open>erase(2)\<close> returns position 1 and leaves 1, 3, 2 and
  1, 2.
\<close>

theorem erase_value_removes_first_occurrence_witness:
  "(case split_of traits_string [1, 2, 3, 2 :: int] of (b, h) \<Rightarrow> valid_split b h) \<and>
   (case header_of traits_string [1, 2, 2 :: int] of (b, h) \<Rightarrow> valid_header b h) \<and>
   fst (erase_value_split traits_string 2 (split_of traits_string [1, 2, 3, 2 :: int])) = 1 \<and>
   (case snd (erase_value_split traits_string 2 (split_of traits_string [1, 2, 3, 2 :: int])) of
      (b', h') \<Rightarrow> elems_split b' h' = [Live 1, Live 3, Live 2] \<and> unat (m_size_split b') = 3) \<and>
   fst (erase_value_header traits_string 2 (header_of traits_string [1, 2, 2 :: int])) = 1 \<and>
   (case snd (erase_value_header traits_string 2 (header_of traits_string [1, 2, 2 :: int])) of
      (b', h') \<Rightarrow> elems_header b' h' = [Live 1, Live 2] \<and> unat (size_header b' h') = 2)"
proof -
  let ?S = "split_of traits_string [1, 2, 3, 2 :: int]"
  let ?H = "header_of traits_string [1, 2, 2 :: int]"
  have v1: "case ?S of (b, h) \<Rightarrow> valid_split b h" by code_simp
  have v2: "case ?H of (b, h) \<Rightarrow> valid_header b h" by code_simp
  have e1: "case ?S of
              (b, h) \<Rightarrow> elems_split b h = [Live 1, Live 2, Live 3, Live 2] \<and> m_size_split b = 4"
    by code_simp
  have e2: "case ?H of
              (b, h) \<Rightarrow> elems_header b h = [Live 1, Live 2, Live 2] \<and> size_header b h = 3"
    by code_simp
  from v1 have h1: "valid_split (fst ?S) (snd ?S)" by (simp add: case_prod_beta)
  from v2 have h2: "valid_header (fst ?H) (snd ?H)" by (simp add: case_prod_beta)
  from erase_value_removes_first_occurrence [OF h1 h2, where tr = traits_string and element = 2]
    e1 e2
  have "fst (erase_value_split traits_string 2 ?S) = 1 \<and>
        (case snd (erase_value_split traits_string 2 ?S) of
           (b', h') \<Rightarrow> elems_split b' h' = [Live 1, Live 3, Live 2] \<and> unat (m_size_split b') = 3) \<and>
        fst (erase_value_header traits_string 2 ?H) = 1 \<and>
        (case snd (erase_value_header traits_string 2 ?H) of
           (b', h') \<Rightarrow> elems_header b' h' = [Live 1, Live 2] \<and> unat (size_header b' h') = 2)"
    by (simp add: case_prod_beta del: erase_value_split.simps erase_value_header.simps)
  with v1 v2 show ?thesis by blast
qed

end
